theory Spec2Isabelle
  imports Main "HOL-Library.Multiset"
begin

text \<open>
  A shallow embedding of two modules of the PostHog analytics platform, and the
  properties of them that are proved here: the retention matrix of
  \<open>ee/clickhouse/queries/clickhouse_retention.py\<close>, and the merging of snapshot chunks
  and the matching of sessions with recordings of
  \<open>posthog/queries/sessions/session_recording.py\<close>. Python dictionaries are records
  (fixed keys) or maps, exceptions are values of a sum type, loops are recursive
  functions, and what the code calls without defining it is a parameter.
\<close>

section \<open>Errors\<close>

text \<open>
  The exceptions that leave the modelled functions: \<open>json.loads\<close> raising on a
  malformed document, the \<open>ValueError\<close> of an unsupported period (with its message)
  and the \<open>DoesNotExist\<close> of a missing action.
\<close>

datatype error = JSONDecodeError | ValueError string | DoesNotExist

section \<open>Session recordings: merging snapshot chunks\<close>

text \<open>
  \<open>SessionRecording.merge_snapshot_chunks\<close> of
  \<open>posthog/queries/sessions/session_recording.py\<close>. An element of
  \<open>unmerged_snapshots\<close> is a dictionary: a chunk when its \<open>posthog_chunked\<close> entry is
  truthy, with the keys \<open>snapshot_id\<close>, \<open>chunk_index\<close>, \<open>chunk_count\<close> and
  \<open>chunk_data\<close>, and a full snapshot otherwise, which is passed on as it is. The type
  \<open>'p\<close> is the type of snapshot payloads (decoded JSON values).
\<close>

record chunk =
  snapshot_id :: string
  chunk_index :: int
  chunk_count :: int
  chunk_data :: string

datatype 'p chunk_or_snapshot = Chunk chunk | Snapshot 'p

text \<open>
  The elements of \<open>snapshots_and_collectors\<close>: a collector
  \<open>{"collector": True, "event": ..., "count": ..., "chunks": {...}}\<close> or a wrapped
  snapshot \<open>{"snapshot": True, "data": ...}\<close>.

  In the source a collector is one object, reachable both from the dictionary
  \<open>snapshot_collectors\<close> (by snapshot id) and from the list
  \<open>snapshots_and_collectors\<close>, and a chunk is written into it through the dictionary.
  In the model the list holds the collector and the dictionary holds the collector's
  position in the list; the write goes through that position.
\<close>

datatype 'p snapshot_or_collector =
    Collector chunk int "int \<rightharpoonup> string"
  | SnapshotData 'p

text \<open>\<open>collector["chunks"][chunk_index] = chunk_data\<close>; only collectors are written to.\<close>

fun put_chunk :: "'p snapshot_or_collector \<Rightarrow> int \<Rightarrow> string \<Rightarrow> 'p snapshot_or_collector" where
  "put_chunk (Collector event cnt chunks) i d = Collector event cnt (chunks(i \<mapsto> d))"
| "put_chunk (SnapshotData p) i d = SnapshotData p"

type_synonym 'p collecting = "(string \<rightharpoonup> nat) \<times> 'p snapshot_or_collector list"

text \<open>
  The body of the first loop. For a chunk, the collector of its snapshot id is looked up
  and, when there is none, created from this chunk (its \<open>chunk_count\<close> becomes the
  collector's \<open>count\<close>) and appended to the list; then the chunk's data is stored under
  its index. A full snapshot is appended.
\<close>

fun collect_step :: "'p collecting \<Rightarrow> 'p chunk_or_snapshot \<Rightarrow> 'p collecting" where
  "collect_step (snapshot_collectors, snapshots_and_collectors) (Chunk c) =
     (let (snapshot_collectors', snapshots_and_collectors', collector) =
            (case snapshot_collectors (snapshot_id c) of
               None \<Rightarrow>
                 (snapshot_collectors(snapshot_id c \<mapsto> length snapshots_and_collectors),
                  snapshots_and_collectors @ [Collector c (chunk_count c) Map.empty],
                  length snapshots_and_collectors)
             | Some collector \<Rightarrow> (snapshot_collectors, snapshots_and_collectors, collector))
      in (snapshot_collectors',
          snapshots_and_collectors'
            [collector := put_chunk (snapshots_and_collectors' ! collector)
                            (chunk_index c) (chunk_data c)]))"
| "collect_step (snapshot_collectors, snapshots_and_collectors) (Snapshot p) =
     (snapshot_collectors, snapshots_and_collectors @ [SnapshotData p])"

fun collect_loop :: "'p collecting \<Rightarrow> 'p chunk_or_snapshot list \<Rightarrow> 'p collecting" where
  "collect_loop st [] = st"
| "collect_loop st (x # xs) = collect_loop (collect_step st x) xs"

text \<open>\<open>range(n)\<close>: the integers from \<open>0\<close> up to \<open>n - 1\<close>, none when \<open>n \<le> 0\<close>.\<close>

definition py_range :: "int \<Rightarrow> int list" where
  "py_range n = [0..n - 1]"

text \<open>
  The inner loop over \<open>range(count)\<close>: \<open>None\<close> stands for \<open>has_all_chunks = False\<close>
  (the loop breaks at the first index whose entry is absent or falsy, and the empty
  string is falsy), \<open>Some data\<close> for the concatenation when every index passed.
\<close>

fun join_chunks :: "(int \<rightharpoonup> string) \<Rightarrow> int list \<Rightarrow> string \<Rightarrow> string option" where
  "join_chunks chunks [] data = Some data"
| "join_chunks chunks (i # is) data =
     (case chunks i of
        None \<Rightarrow> None
      | Some d \<Rightarrow> if d = [] then None else join_chunks chunks is (data @ d))"

text \<open>
  What a call leaves behind: the messages handed to \<open>capture_message\<close>, in order, and
  either the list returned or the exception raised. A message that was captured before
  an exception stays captured.
\<close>

record 'p outcome =
  captured :: "string list"
  returned :: "error + 'p list"

text \<open>
  The second loop. \<open>loads\<close> is \<open>json.loads\<close>, with \<open>None\<close> for a raised
  \<open>JSONDecodeError\<close>; the source does not catch it, so it ends the call.
\<close>

fun emit_loop ::
  "(string \<Rightarrow> 'p option) \<Rightarrow> string \<Rightarrow> 'p snapshot_or_collector list \<Rightarrow> 'p list \<Rightarrow> string list
     \<Rightarrow> 'p outcome" where
  "emit_loop loads message [] snapshots msgs = \<lparr>captured = msgs, returned = Inr snapshots\<rparr>"
| "emit_loop loads message (Collector event cnt chunks # rest) snapshots msgs =
     (case join_chunks chunks (py_range cnt) [] of
        Some data \<Rightarrow>
          (case loads data of
             None \<Rightarrow> \<lparr>captured = msgs, returned = Inl JSONDecodeError\<rparr>
           | Some v \<Rightarrow> emit_loop loads message rest (snapshots @ [v]) msgs)
      | None \<Rightarrow> emit_loop loads message rest snapshots (msgs @ [message]))"
| "emit_loop loads message (SnapshotData p # rest) snapshots msgs =
     emit_loop loads message rest (snapshots @ [p]) msgs"

text \<open>\<open>str\<close> of an integer, as \<open>format\<close> prints it.\<close>

fun str_nat :: "nat \<Rightarrow> string" where
  "str_nat n =
     (if n < 10 then [''0123456789'' ! n]
      else str_nat (n div 10) @ [''0123456789'' ! (n mod 10)])"

declare str_nat.simps [simp del]

definition str_int :: "int \<Rightarrow> string" where
  "str_int i = (if i < 0 then CHR ''-'' # str_nat (nat (- i)) else str_nat (nat i))"

definition missing_chunks_message :: "int \<Rightarrow> string \<Rightarrow> string" where
  "missing_chunks_message team_pk session_id =
     ''Did not find all session recording chunks! Team: '' @ str_int team_pk
       @ '', Session: '' @ session_id"

definition merge_snapshot_chunks ::
  "(string \<Rightarrow> 'p option) \<Rightarrow> int \<Rightarrow> string \<Rightarrow> 'p chunk_or_snapshot list \<Rightarrow> 'p outcome" where
  "merge_snapshot_chunks loads team_pk session_id unmerged_snapshots =
     (let (snapshot_collectors, snapshots_and_collectors) =
            collect_loop (Map.empty, []) unmerged_snapshots
      in emit_loop loads (missing_chunks_message team_pk session_id)
           snapshots_and_collectors [] [])"

subsection \<open>Notions used to state the properties\<close>

text \<open>
  These are not part of the source. \<open>chunks_of g xs\<close> is what the stream \<open>xs\<close> records
  for the group \<open>g\<close>: for each index the data of the last fragment of \<open>g\<close> with that
  index. \<open>group_ids xs\<close> are the snapshot ids of the chunks of \<open>xs\<close>, and
  \<open>first_fragment g xs\<close> is the first chunk of \<open>xs\<close> with snapshot id \<open>g\<close>.
\<close>

fun chunks_of :: "string \<Rightarrow> 'p chunk_or_snapshot list \<Rightarrow> (int \<rightharpoonup> string)" where
  "chunks_of g [] = Map.empty"
| "chunks_of g (Chunk c # xs) =
     (if snapshot_id c = g then [chunk_index c \<mapsto> chunk_data c] ++ chunks_of g xs
      else chunks_of g xs)"
| "chunks_of g (Snapshot p # xs) = chunks_of g xs"

fun group_ids :: "'p chunk_or_snapshot list \<Rightarrow> string set" where
  "group_ids [] = {}"
| "group_ids (Chunk c # xs) = insert (snapshot_id c) (group_ids xs)"
| "group_ids (Snapshot p # xs) = group_ids xs"

fun first_fragment :: "string \<Rightarrow> 'p chunk_or_snapshot list \<Rightarrow> chunk option" where
  "first_fragment g [] = None"
| "first_fragment g (Chunk c # xs) = (if snapshot_id c = g then Some c else first_fragment g xs)"
| "first_fragment g (Snapshot p # xs) = first_fragment g xs"

text \<open>
  The logical units of a stream in the order of their first appearance, following the
  words of the specification: every full snapshot, and of every chunk group the
  fragment seen first (\<open>seen\<close> are the groups met so far).
\<close>

fun first_appearances :: "string set \<Rightarrow> 'p chunk_or_snapshot list \<Rightarrow> 'p chunk_or_snapshot list" where
  "first_appearances seen [] = []"
| "first_appearances seen (Chunk c # xs) =
     (if snapshot_id c \<in> seen then first_appearances seen xs
      else Chunk c # first_appearances (insert (snapshot_id c) seen) xs)"
| "first_appearances seen (Snapshot p # xs) = Snapshot p # first_appearances seen xs"

text \<open>The collector, or wrapped snapshot, that the whole stream builds for a unit.\<close>

fun unit_entry :: "'p chunk_or_snapshot list \<Rightarrow> 'p chunk_or_snapshot \<Rightarrow> 'p snapshot_or_collector" where
  "unit_entry xs (Chunk c) = Collector c (chunk_count c) (chunks_of (snapshot_id c) xs)"
| "unit_entry xs (Snapshot p) = SnapshotData p"

text \<open>
  What a unit contributes to the output, judged on the whole stream: a full snapshot
  itself; a group its decoded payload when complete and nothing when incomplete;
  \<open>None\<close> when decoding raises.
\<close>

fun unit_output ::
  "(string \<Rightarrow> 'p option) \<Rightarrow> 'p chunk_or_snapshot list \<Rightarrow> 'p chunk_or_snapshot \<Rightarrow> 'p list option" where
  "unit_output loads xs (Snapshot p) = Some [p]"
| "unit_output loads xs (Chunk c) =
     (case join_chunks (chunks_of (snapshot_id c) xs) (py_range (chunk_count c)) [] of
        None \<Rightarrow> Some []
      | Some data \<Rightarrow> (case loads data of None \<Rightarrow> None | Some v \<Rightarrow> Some [v]))"

text \<open>
  The output ordered by first appearance: the contributions of the units, concatenated
  in the order in which the units first appear in the stream.
\<close>

definition first_appearance_output ::
  "(string \<Rightarrow> 'p option) \<Rightarrow> 'p chunk_or_snapshot list \<Rightarrow> error + 'p list" where
  "first_appearance_output loads xs =
     (case those (map (unit_output loads xs) (first_appearances {} xs)) of
        None \<Rightarrow> Inl JSONDecodeError
      | Some outs \<Rightarrow> Inr (concat outs))"

text \<open>A stream with the fragments of one group taken out.\<close>

fun in_group :: "string \<Rightarrow> 'p chunk_or_snapshot \<Rightarrow> bool" where
  "in_group g (Chunk c) = (snapshot_id c = g)"
| "in_group g (Snapshot p) = False"

definition without_group :: "string \<Rightarrow> 'p chunk_or_snapshot list \<Rightarrow> 'p chunk_or_snapshot list" where
  "without_group g xs = filter (\<lambda>x. \<not> in_group g x) xs"

text \<open>The number of messages the second loop captures on a list of entries.\<close>

fun reported :: "(string \<Rightarrow> 'p option) \<Rightarrow> 'p snapshot_or_collector list \<Rightarrow> nat" where
  "reported loads [] = 0"
| "reported loads (Collector event cnt chunks # rest) =
     (case join_chunks chunks (py_range cnt) [] of
        Some data \<Rightarrow> (case loads data of None \<Rightarrow> 0 | Some v \<Rightarrow> reported loads rest)
      | None \<Rightarrow> Suc (reported loads rest))"
| "reported loads (SnapshotData p # rest) = reported loads rest"

text \<open>
  The second loop reaches the group that first appears after the prefix \<open>pre\<close> of the
  stream \<open>xs\<close>: no unit that first appears in \<open>pre\<close> is a complete group (judged on the
  whole of \<open>xs\<close>) that fails to decode.
\<close>

definition decoded_before ::
  "(string \<Rightarrow> 'p option) \<Rightarrow> 'p chunk_or_snapshot list \<Rightarrow> 'p chunk_or_snapshot list \<Rightarrow> bool" where
  "decoded_before loads xs pre =
     (those (map (unit_output loads xs) (first_appearances {} pre)) \<noteq> None)"

text \<open>
  The invariant of the first loop after the prefix \<open>xs\<close> of the stream: the list holds
  the entries of the units of \<open>xs\<close> in the order of their first appearance, and the
  dictionary maps exactly the group ids of \<open>xs\<close>, each to the position of its group.
\<close>

definition collected :: "'p chunk_or_snapshot list \<Rightarrow> 'p collecting \<Rightarrow> bool" where
  "collected xs st \<longleftrightarrow>
     snd st = map (unit_entry xs) (first_appearances {} xs)
     \<and> (\<forall>j c. j < length (first_appearances {} xs) \<and> first_appearances {} xs ! j = Chunk c
            \<longrightarrow> fst st (snapshot_id c) = Some j)
     \<and> (\<forall>g a. fst st g = Some a
            \<longrightarrow> a < length (first_appearances {} xs)
                \<and> (\<exists>c. first_appearances {} xs ! a = Chunk c \<and> snapshot_id c = g))
     \<and> (\<forall>g. fst st g = None \<longleftrightarrow> g \<notin> group_ids xs)"

text \<open>
  A decoder for the examples: \<open>json.loads\<close> on the documents that are one
  non-negative integer literal, where it returns the number. Every other string is
  rejected; the examples use it only on strings on which \<open>json.loads\<close> raises as well
  (the empty string and \<open>x\<close>).
\<close>

definition loads_nat :: "string \<Rightarrow> nat option" where
  "loads_nat s =
     (if s \<noteq> [] \<and> list_all (\<lambda>c. c \<in> set ''0123456789'') s \<and> (hd s \<noteq> CHR ''0'' \<or> length s = 1)
      then Some (foldl (\<lambda>n c. 10 * n + (of_char c - 48)) 0 s) else None)"

section \<open>Session recordings: correlating sessions with recordings\<close>

text \<open>
  The functions \<open>matches\<close> and \<open>collect_matching_recordings\<close> of
  \<open>posthog/queries/sessions/session_recording.py\<close>. A session and a recording
  candidate are dictionaries in the source; the keys the two functions read are the
  fields of the records below. Instants are points of a linear time line, held as
  integers. The only field of the \<open>SessionsFilter\<close> that is read is
  \<open>recording_unseen_filter\<close>, by its truth value.
\<close>

type_synonym instant = int

record session =
  distinct_id :: string
  start_time :: instant
  end_time :: instant

record session_recording =
  rec_session_id :: string
  rec_distinct_id :: string
  rec_start_time :: instant
  rec_end_time :: instant

record sessions_filter =
  recording_unseen_filter :: bool

record correlated_recording =
  cr_id :: string
  cr_viewed :: bool

definition matches ::
  "session \<Rightarrow> session_recording \<Rightarrow> sessions_filter \<Rightarrow> string set \<Rightarrow> bool" where
  "matches session session_recording flt viewed =
     (distinct_id session = rec_distinct_id session_recording
      \<and> start_time session \<le> rec_end_time session_recording
      \<and> end_time session \<ge> rec_start_time session_recording
      \<and> (\<not> recording_unseen_filter flt \<or> rec_session_id session_recording \<notin> viewed))"

text \<open>The generator: one pass over the candidates, yielding in their order.\<close>

fun collect_matching_recordings ::
  "session \<Rightarrow> session_recording list \<Rightarrow> sessions_filter \<Rightarrow> string set
     \<Rightarrow> correlated_recording list" where
  "collect_matching_recordings session [] flt viewed = []"
| "collect_matching_recordings session (recording # session_recordings) flt viewed =
     (if matches session recording flt viewed
      then \<lparr>cr_id = rec_session_id recording,
             cr_viewed = (rec_session_id recording \<in> viewed)\<rparr>
           # collect_matching_recordings session session_recordings flt viewed
      else collect_matching_recordings session session_recordings flt viewed)"

section \<open>Retention\<close>

text \<open>
  The class \<open>ClickhouseRetention\<close> of \<open>ee/clickhouse/queries/clickhouse_retention.py\<close>.
  The names of its methods are kept without the leading underscore, which an Isabelle
  name cannot have: \<open>determineTimedelta\<close>, \<open>get_condition\<close>, \<open>get_event_filter\<close>.
\<close>

subsection \<open>Dates and durations\<close>

text \<open>
  A \<open>datetime\<close> is held as the proleptic Gregorian ordinal of its date
  (\<open>date.toordinal()\<close>; day 1 is Monday, 1 January of year 1) and its time of day. Time
  zones are left out, and so is the \<open>OverflowError\<close> of arithmetic that leaves the
  years 1 to 9999: dates are taken to stay in range.

  A \<open>timedelta\<close> is held as its length in microseconds, a \<open>relativedelta(months=n)\<close>
  as the number of months. Adding months is calendar arithmetic of the library
  \<open>dateutil\<close>; it is a parameter (\<open>add_months\<close> below).
\<close>

record datetime =
  ordinal :: int
  hour :: int
  minute :: int
  second :: int
  microsecond :: int

datatype delta = Timedelta int | Relativedelta int

definition us_per_day :: int where
  "us_per_day = 86400000000"

definition to_microseconds :: "datetime \<Rightarrow> int" where
  "to_microseconds d =
     ordinal d * us_per_day
       + ((hour d * 60 + minute d) * 60 + second d) * 1000000 + microsecond d"

definition of_microseconds :: "int \<Rightarrow> datetime" where
  "of_microseconds t =
     \<lparr>ordinal = t div us_per_day,
      hour = (t mod us_per_day) div 3600000000,
      minute = (t mod 3600000000) div 60000000,
      second = (t mod 60000000) div 1000000,
      microsecond = t mod 1000000\<rparr>"

definition timedelta_hours :: "int \<Rightarrow> delta" where
  "timedelta_hours n = Timedelta (n * 3600000000)"

definition timedelta_days :: "int \<Rightarrow> delta" where
  "timedelta_days n = Timedelta (n * us_per_day)"

definition timedelta_weeks :: "int \<Rightarrow> delta" where
  "timedelta_weeks n = Timedelta (n * 7 * us_per_day)"

definition isoweekday :: "datetime \<Rightarrow> int" where
  "isoweekday d = (ordinal d + 6) mod 7 + 1"

text \<open>\<open>d.replace(hour=0, minute=0, second=0, microsecond=0)\<close>\<close>

definition replace_midnight :: "datetime \<Rightarrow> datetime" where
  "replace_midnight d = d\<lparr>hour := 0, minute := 0, second := 0, microsecond := 0\<rparr>"

subsection \<open>Constants\<close>

definition PERIOD_TRUNC_HOUR :: string where "PERIOD_TRUNC_HOUR = ''toStartOfHour''"
definition PERIOD_TRUNC_DAY :: string where "PERIOD_TRUNC_DAY = ''toStartOfDay''"
definition PERIOD_TRUNC_WEEK :: string where "PERIOD_TRUNC_WEEK = ''toStartOfWeek''"
definition PERIOD_TRUNC_MONTH :: string where "PERIOD_TRUNC_MONTH = ''toStartOfMonth''"

text \<open>
  Modelled from the spec: the constants \<open>RETENTION_FIRST_TIME\<close>,
  \<open>TREND_FILTER_TYPE_ACTIONS\<close> and \<open>TREND_FILTER_TYPE_EVENTS\<close> of
  \<open>posthog.constants\<close>, a module that is not among the sources. The specification has a
  first-time retention mode and the two entity kinds action and event; the constants are
  three strings that name them. Only that the two entity kinds differ is used.
\<close>

definition RETENTION_FIRST_TIME :: string where "RETENTION_FIRST_TIME = ''retention_first_time''"
definition TREND_FILTER_TYPE_ACTIONS :: string where "TREND_FILTER_TYPE_ACTIONS = ''actions''"
definition TREND_FILTER_TYPE_EVENTS :: string where "TREND_FILTER_TYPE_EVENTS = ''events''"

subsection \<open>The request and what surrounds the computation\<close>

text \<open>
  Property filters and stored actions are passed through to functions that are not
  among the sources; their types are left open.
\<close>

typedecl property
typedecl action

type_synonym params = "string \<rightharpoonup> string"

record entity =
  entity_id :: string
  entity_type :: string

text \<open>
  Modelled from the spec: the class \<open>Filter\<close> of \<open>posthog.models.filter\<close>, which is not
  among the sources. The record holds the attributes that \<open>calculate_retention\<close> reads
  (\<open>period\<close>, \<open>properties\<close>, \<open>target_entity\<close>, \<open>entities\<close>, \<open>retention_type\<close>) and the
  two it assigns, \<open>_date_from\<close> and \<open>_date_to\<close> (\<open>stored_date_from\<close>,
  \<open>stored_date_to\<close>: the date whose ISO text is assigned). What the source reads as
  \<open>filter.date_to\<close> is decided by that class; it is the parameter \<open>date_to_of\<close> below,
  a function of the filter object.
\<close>

record retention_filter =
  period :: "string option"
  stored_date_from :: "datetime option"
  stored_date_to :: "datetime option"
  properties :: "property list"
  target_entity :: "entity option"
  entities :: "entity list"
  retention_type :: string

record team =
  pk :: int

text \<open>
  The one call of \<open>sync_execute\<close>: the four pieces formatted into \<open>RETENTION_SQL\<close> (a
  template that is not among the sources) and the query parameters. The dates are held
  as the \<open>datetime\<close> whose text \<open>strftime\<close> produces; \<open>q_named_params\<close> are the
  parameters of the property filters and of the event filter.
\<close>

record query =
  q_target_query :: string
  q_returning_query :: string
  q_filters :: string
  q_trunc_func :: string
  q_team_id :: int
  q_start_date :: datetime
  q_end_date :: datetime
  q_named_params :: params
  q_period :: string

text \<open>
  What the computation calls and does not define: the clock (\<open>now k\<close> is the reading of
  the call of \<open>now()\<close> after \<open>k\<close> earlier ones), the property \<open>date_to\<close> of the filter,
  the month arithmetic of \<open>dateutil\<close>, \<open>parse_prop_clauses\<close>, the lookup
  \<open>Action.objects.get\<close> (\<open>None\<close> when it raises \<open>DoesNotExist\<close>),
  \<open>format_action_filter\<close>, and the query executor.
\<close>

record env =
  now :: "nat \<Rightarrow> datetime"
  date_to_of :: "retention_filter \<Rightarrow> datetime option"
  add_months :: "datetime \<Rightarrow> int \<Rightarrow> datetime"
  parse_prop_clauses :: "property list \<Rightarrow> int \<Rightarrow> string \<times> params"
  action_get :: "string \<Rightarrow> action option"
  format_action_filter :: "action \<Rightarrow> string \<Rightarrow> string \<times> params"
  sync_execute :: "query \<Rightarrow> (int \<times> int \<times> int) list"

fun dt_plus :: "env \<Rightarrow> datetime \<Rightarrow> delta \<Rightarrow> datetime" where
  "dt_plus env d (Timedelta us) = of_microseconds (to_microseconds d + us)"
| "dt_plus env d (Relativedelta m) = add_months env d m"

fun dt_minus :: "env \<Rightarrow> datetime \<Rightarrow> delta \<Rightarrow> datetime" where
  "dt_minus env d (Timedelta us) = of_microseconds (to_microseconds d - us)"
| "dt_minus env d (Relativedelta m) = add_months env d (- m)"

subsection \<open>The period\<close>

definition determineTimedelta :: "int \<Rightarrow> string \<Rightarrow> error + (delta \<times> string \<times> delta)" where
  "determineTimedelta total_intervals period' =
     (if period' = ''Hour''
        then Inr (timedelta_hours total_intervals, PERIOD_TRUNC_HOUR, timedelta_hours 1)
      else if period' = ''Week''
        then Inr (timedelta_weeks total_intervals, PERIOD_TRUNC_WEEK, timedelta_weeks 1)
      else if period' = ''Day''
        then Inr (timedelta_days total_intervals, PERIOD_TRUNC_DAY, timedelta_days 1)
      else if period' = ''Month''
        then Inr (Relativedelta total_intervals, PERIOD_TRUNC_MONTH, Relativedelta 1)
      else Inl (ValueError (''Period '' @ period' @ '' is unsupported.'')))"

subsection \<open>The event filter\<close>

definition get_condition :: "env \<Rightarrow> entity \<Rightarrow> string \<Rightarrow> error + (string \<times> params)" where
  "get_condition env target prepend =
     (if entity_type target = TREND_FILTER_TYPE_ACTIONS then
        (case action_get env (entity_id target) of
           None \<Rightarrow> Inl DoesNotExist
         | Some act \<Rightarrow>
             (let (action_query, ps) = format_action_filter env act prepend
              in Inr (''e.uuid IN ('' @ action_query @ '')'', ps)))
      else if entity_type target = TREND_FILTER_TYPE_EVENTS then
        Inr (''e.event = %('' @ prepend @ ''_event)s'', [prepend @ ''_event'' \<mapsto> entity_id target])
      else
        Inr (''e.event = %('' @ prepend @ ''_event)s'', [prepend @ ''_event'' \<mapsto> ''$pageview'']))"

text \<open>\<open>Entity({"id": "$pageview", "type": TREND_FILTER_TYPE_EVENTS})\<close>\<close>

definition pageview_entity :: entity where
  "pageview_entity = \<lparr>entity_id = ''$pageview'', entity_type = TREND_FILTER_TYPE_EVENTS\<rparr>"

text \<open>
  The result is the triple of the target query, the returning query and the merged
  parameters \<open>{**params, **returning_params}\<close>.
\<close>

definition get_event_filter ::
  "env \<Rightarrow> retention_filter \<Rightarrow> string \<Rightarrow> error + (string \<times> string \<times> params)" where
  "get_event_filter env flt trunc =
     (let first_time_retention = (retention_type flt = RETENTION_FIRST_TIME);
          target = (case target_entity flt of None \<Rightarrow> pageview_entity | Some e \<Rightarrow> e);
          returning_entity =
            (if first_time_retention
             then (if \<not> length (entities flt) > 0 then pageview_entity else hd (entities flt))
             else target)
      in case get_condition env target [] of
           Inl e \<Rightarrow> Inl e
         | Inr (target_query, ps) \<Rightarrow>
            (case get_condition env returning_entity
                    (if first_time_retention then ''returning'' else []) of
               Inl e \<Rightarrow> Inl e
             | Inr (returning_query, returning_params) \<Rightarrow>
                 Inr (''AND '' @ target_query,
                      (if first_time_retention
                       then ''AND ('' @ target_query @ '' OR ('' @ returning_query @ '' AND ''
                              @ trunc @ ''(toDateTime(%(start_date)s)) = '' @ trunc @ ''(timestamp)))''
                       else ''AND '' @ target_query),
                      ps ++ returning_params)))"

subsection \<open>The matrix\<close>

text \<open>A cell \<open>{"count": ..., "people": []}\<close> and a row of the list returned.\<close>

record cell =
  cell_count :: int
  people :: "string list"

record row =
  row_values :: "cell list"
  row_label :: string
  row_date :: datetime

text \<open>The fold of the query rows into \<open>result_dict\<close>: \<open>update\<close> overwrites.\<close>

fun fold_rows :: "((int \<times> int) \<rightharpoonup> cell) \<Rightarrow> (int \<times> int \<times> int) list \<Rightarrow> ((int \<times> int) \<rightharpoonup> cell)" where
  "fold_rows result_dict [] = result_dict"
| "fold_rows result_dict ((r0, r1, r2) # rows) =
     fold_rows (result_dict((r0, r1) \<mapsto> \<lparr>cell_count = r2, people = []\<rparr>)) rows"

text \<open>\<open>result_dict.get(key, {"count": 0, "people": []})\<close>\<close>

definition get_cell :: "((int \<times> int) \<rightharpoonup> cell) \<Rightarrow> int \<times> int \<Rightarrow> cell" where
  "get_cell result_dict key =
     (case result_dict key of None \<Rightarrow> \<lparr>cell_count = 0, people = []\<rparr> | Some c \<Rightarrow> c)"

text \<open>
  The list comprehension over \<open>first_day\<close>: each row reads the keys
  \<open>(first_day, day)\<close> for \<open>day\<close> in \<open>range(total_intervals - first_day)\<close>, and calls
  \<open>determineTimedelta\<close> for its date.
\<close>

fun parsed_rows ::
  "env \<Rightarrow> ((int \<times> int) \<rightharpoonup> cell) \<Rightarrow> string \<Rightarrow> datetime \<Rightarrow> int \<Rightarrow> int list \<Rightarrow> error + row list" where
  "parsed_rows env result_dict period' date_from total_intervals [] = Inr []"
| "parsed_rows env result_dict period' date_from total_intervals (first_day # later) =
     (case determineTimedelta first_day period' of
        Inl e \<Rightarrow> Inl e
      | Inr (offset, tf, t1) \<Rightarrow>
         (case parsed_rows env result_dict period' date_from total_intervals later of
            Inl e \<Rightarrow> Inl e
          | Inr rest \<Rightarrow>
              Inr (\<lparr>row_values = map (\<lambda>day. get_cell result_dict (first_day, day))
                                  (py_range (total_intervals - first_day)),
                    row_label = period' @ '' '' @ str_int first_day,
                    row_date = dt_plus env date_from offset\<rparr> # rest)))"

subsection \<open>\<open>calculate_retention\<close>\<close>

text \<open>
  What a call leaves behind: the filter object as it was last assigned to, the queries
  handed to \<open>sync_execute\<close>, and the list returned or the exception raised.
\<close>

record retention_outcome =
  filter_after :: retention_filter
  issued :: "query list"
  outcome_value :: "error + row list"

text \<open>Line 27: \<open>period = filter.period or "Day"\<close>; \<open>None\<close> and the empty string are falsy.\<close>

definition resolved_period :: "retention_filter \<Rightarrow> string" where
  "resolved_period flt = (case period flt of None \<Rightarrow> ''Day'' | Some p \<Rightarrow> if p = [] then ''Day'' else p)"

text \<open>
  The date parameters: \<open>strftime\<close> with \<open>%Y-%m-%d %H:%M:%S\<close> when \<open>filter.period\<close> is
  \<open>Hour\<close> (the microseconds are dropped), and with \<open>%Y-%m-%d 00:00:00\<close> otherwise.
\<close>

definition strftime_param :: "retention_filter \<Rightarrow> datetime \<Rightarrow> datetime" where
  "strftime_param flt d =
     (if period flt = Some ''Hour'' then d\<lparr>microsecond := 0\<rparr> else replace_midnight d)"

text \<open>
  The function is long; its three phases are defined one by one. Lines 31 to 41, the
  date range: \<open>filter._date_to\<close> is first assigned the date read (or the clock) plus
  one period, then \<open>filter.date_to\<close> is read again (or the clock), truncated to midnight
  unless the period is \<open>Hour\<close>, and \<open>date_from\<close> lies \<open>tdelta\<close> before it; both are
  assigned to the filter. The result is the filter, \<open>date_from\<close> and \<open>date_to\<close>.
\<close>

definition resolve_range ::
  "env \<Rightarrow> retention_filter \<Rightarrow> string \<Rightarrow> delta \<Rightarrow> delta
     \<Rightarrow> retention_filter \<times> datetime \<times> datetime" where
  "resolve_range env flt period' tdelta t1 =
     (let (first_read, clock) =
            (case date_to_of env flt of Some d \<Rightarrow> (d, 0) | None \<Rightarrow> (now env 0, 1));
          flt1 = flt\<lparr>stored_date_to := Some (dt_plus env first_read t1)\<rparr>;
          second_read = (case date_to_of env flt1 of Some d \<Rightarrow> d | None \<Rightarrow> now env clock);
          date_to = (if period' = ''Hour'' then second_read else replace_midnight second_read);
          date_from = dt_minus env date_to tdelta
      in (flt1\<lparr>stored_date_from := Some date_from, stored_date_to := Some date_to\<rparr>,
          date_from, date_to))"

text \<open>Lines 43 to 66: the argument of \<open>sync_execute\<close>.\<close>

definition retention_query ::
  "env \<Rightarrow> retention_filter \<Rightarrow> team \<Rightarrow> string \<Rightarrow> string \<Rightarrow> datetime \<Rightarrow> datetime
     \<Rightarrow> string \<Rightarrow> string \<Rightarrow> params \<Rightarrow> query" where
  "retention_query env flt tm period' trunc_func date_from date_to
       target_query returning_query target_params =
     (let (prop_filters, prop_filter_params) = parse_prop_clauses env (properties flt) (pk tm)
      in \<lparr>q_target_query = target_query, q_returning_query = returning_query,
          q_filters = (if properties flt \<noteq> [] then prop_filters else []),
          q_trunc_func = trunc_func, q_team_id = pk tm,
          q_start_date = strftime_param flt date_from,
          q_end_date = strftime_param flt date_to,
          q_named_params = prop_filter_params ++ target_params,
          q_period = period'\<rparr>)"

text \<open>
  Lines 68 to 88: the fold of the rows, the move of \<open>date_from\<close> back to the start of
  its week when the period is \<open>Week\<close>, and the rows of the matrix.
\<close>

definition parse_result ::
  "env \<Rightarrow> (int \<times> int \<times> int) list \<Rightarrow> string \<Rightarrow> datetime \<Rightarrow> int \<Rightarrow> error + row list" where
  "parse_result env rows period' date_from total_intervals =
     (let result_dict = fold_rows Map.empty rows;
          date_from' = (if period' = ''Week''
                        then dt_minus env date_from (timedelta_days (isoweekday date_from mod 7))
                        else date_from)
      in parsed_rows env result_dict period' date_from' total_intervals (py_range total_intervals))"

definition calculate_retention ::
  "env \<Rightarrow> retention_filter \<Rightarrow> team \<Rightarrow> int \<Rightarrow> retention_outcome" where
  "calculate_retention env flt tm total_intervals =
     (let period' = resolved_period flt in
      case determineTimedelta total_intervals period' of
        Inl e \<Rightarrow> \<lparr>filter_after = flt, issued = [], outcome_value = Inl e\<rparr>
      | Inr (tdelta, trunc_func, t1) \<Rightarrow>
         (let (flt2, date_from, date_to) = resolve_range env flt period' tdelta t1
          in case get_event_filter env flt2 trunc_func of
               Inl e \<Rightarrow> \<lparr>filter_after = flt2, issued = [], outcome_value = Inl e\<rparr>
             | Inr (target_query, returning_query, target_params) \<Rightarrow>
                (let q = retention_query env flt2 tm period' trunc_func date_from date_to
                           target_query returning_query target_params
                 in \<lparr>filter_after = flt2, issued = [q],
                     outcome_value = parse_result env (sync_execute env q) period' date_from
                                       total_intervals\<rparr>)))"

subsection \<open>Notions used to state the properties\<close>

text \<open>
  These are not part of the source. \<open>last_count rows key\<close> is the count of the last
  query row with the key (the fold overwrites), and \<open>cell_of\<close> the cell such a count
  gives, with count \<open>0\<close> when there is no row.
\<close>

fun last_count :: "(int \<times> int \<times> int) list \<Rightarrow> int \<times> int \<Rightarrow> int option" where
  "last_count [] key = None"
| "last_count ((r0, r1, r2) # rows) key =
     (case last_count rows key of
        Some c \<Rightarrow> Some c
      | None \<Rightarrow> if (r0, r1) = key then Some r2 else None)"

definition cell_of :: "int option \<Rightarrow> cell" where
  "cell_of c = (case c of None \<Rightarrow> \<lparr>cell_count = 0, people = []\<rparr>
                        | Some n \<Rightarrow> \<lparr>cell_count = n, people = []\<rparr>)"

text \<open>
  The dates and spans that Python represents: a \<open>datetime\<close> lies between the years 1
  and 9999 (ordinals 1 to 3652059), and a \<open>timedelta\<close> holds at most 999999999 days
  either way; outside these, the constructors and the arithmetic of \<open>datetime\<close> raise
  \<open>OverflowError\<close>. The functions above compute on unbounded integers, so a property
  of a call that returns is stated for dates and spans within these bounds.
\<close>

definition datetime_in_range :: "datetime \<Rightarrow> bool" where
  "datetime_in_range d = (1 \<le> ordinal d \<and> ordinal d \<le> 3652059)"

fun delta_in_range :: "delta \<Rightarrow> bool" where
  "delta_in_range (Timedelta us) =
     (- 999999999 \<le> us div us_per_day \<and> us div us_per_day \<le> 999999999)"
| "delta_in_range (Relativedelta m) = True"

text \<open>
  The entities of first-time retention: the target entity and the first returning
  entity, each the page view when the filter has none.
\<close>

definition first_time_target :: "retention_filter \<Rightarrow> entity" where
  "first_time_target flt = (case target_entity flt of None \<Rightarrow> pageview_entity | Some e \<Rightarrow> e)"

definition first_time_returning :: "retention_filter \<Rightarrow> entity" where
  "first_time_returning flt = (case entities flt of [] \<Rightarrow> pageview_entity | e # es \<Rightarrow> e)"

text \<open>
  The predicates that \<open>get_event_filter\<close> writes, as trees: a condition text of an
  entity, the comparison of the event's bucket with the bucket of the start date under a
  truncation function, conjunction and disjunction. \<open>render\<close> is the text of a tree,
  with the parentheses of the source's format string. \<open>holds\<close> evaluates a tree on one
  event, given which condition texts the event satisfies and whether its timestamp
  falls in the bucket of the start date.
\<close>

datatype sql_condition =
    Atom string
  | SameBucket string
  | Conj sql_condition sql_condition
  | Disj sql_condition sql_condition

fun render :: "sql_condition \<Rightarrow> string" where
  "render (Atom text) = text"
| "render (SameBucket trunc) =
     trunc @ ''(toDateTime(%(start_date)s)) = '' @ trunc @ ''(timestamp)''"
| "render (Conj a b) = ''('' @ render a @ '' AND '' @ render b @ '')''"
| "render (Disj a b) = ''('' @ render a @ '' OR '' @ render b @ '')''"

record event_view =
  satisfies :: "string \<Rightarrow> bool"
  in_anchor_bucket :: "string \<Rightarrow> bool"

fun holds :: "event_view \<Rightarrow> sql_condition \<Rightarrow> bool" where
  "holds ev (Atom text) = satisfies ev text"
| "holds ev (SameBucket trunc) = in_anchor_bucket ev trunc"
| "holds ev (Conj a b) = (holds ev a \<and> holds ev b)"
| "holds ev (Disj a b) = (holds ev a \<or> holds ev b)"

subsection \<open>Examples\<close>

text \<open>
  A clock that reads 10 March 2021 (ordinal 737859, a Wednesday), 15:30:12.000250,
  a filter that supplies no \<open>date_to\<close>, no property filters, no stored actions, and a
  query executor that answers every query with the given rows.
\<close>

definition example_now :: datetime where
  "example_now = \<lparr>ordinal = 737859, hour = 15, minute = 30, second = 12, microsecond = 250\<rparr>"

definition example_env :: "(int \<times> int \<times> int) list \<Rightarrow> env" where
  "example_env rows =
     \<lparr>now = (\<lambda>k. example_now),
      date_to_of = (\<lambda>f. None),
      add_months = (\<lambda>d m. d),
      parse_prop_clauses = (\<lambda>ps t. ([], Map.empty)),
      action_get = (\<lambda>a. None),
      format_action_filter = (\<lambda>a p. ([], Map.empty)),
      sync_execute = (\<lambda>q. rows)\<rparr>"

text \<open>
  The same with a \<open>Filter\<close> whose property \<open>date_to\<close> returns the date assigned to
  \<open>_date_to\<close>.
\<close>

definition example_env_stored :: "(int \<times> int \<times> int) list \<Rightarrow> env" where
  "example_env_stored rows = (example_env rows)\<lparr>date_to_of := stored_date_to\<rparr>"

definition example_filter :: "string \<Rightarrow> string \<Rightarrow> retention_filter" where
  "example_filter p rt =
     \<lparr>period = Some p, stored_date_from = None, stored_date_to = None, properties = [],
      target_entity = None, entities = [], retention_type = rt\<rparr>"

text \<open>First-time retention of the event \<open>purchase\<close> after a first \<open>signup\<close>.\<close>

definition example_first_time_filter :: retention_filter where
  "example_first_time_filter =
     \<lparr>period = Some ''Day'', stored_date_from = None, stored_date_to = None, properties = [],
      target_entity = Some \<lparr>entity_id = ''signup'', entity_type = TREND_FILTER_TYPE_EVENTS\<rparr>,
      entities = [\<lparr>entity_id = ''purchase'', entity_type = TREND_FILTER_TYPE_EVENTS\<rparr>],
      retention_type = RETENTION_FIRST_TIME\<rparr>"

text \<open>
  An event that is the target action (it satisfies the target's condition text and not
  the returning one) and whose timestamp lies outside the bucket of the start date.
\<close>

definition later_target_event :: event_view where
  "later_target_event =
     \<lparr>satisfies = (\<lambda>text. text = ''e.event = %(_event)s''),
      in_anchor_bucket = (\<lambda>trunc. False)\<rparr>"

section \<open>Properties of merging snapshot chunks\<close>

text \<open>
  One more element at the end of a stream: the first loop, the chunks recorded for a
  group, the group ids and the first appearances.
\<close>

lemma collect_loop_append:
  "collect_loop st (xs @ ys) = collect_loop (collect_loop st xs) ys"
  by (induction xs arbitrary: st) simp_all

lemma chunks_of_append: "chunks_of g (xs @ ys) = chunks_of g xs ++ chunks_of g ys"
  by (induction g xs rule: chunks_of.induct) simp_all

lemma chunks_of_snoc_chunk:
  "chunks_of g (xs @ [Chunk c]) =
     (if snapshot_id c = g then (chunks_of g xs)(chunk_index c \<mapsto> chunk_data c)
      else chunks_of g xs)"
  by (simp add: chunks_of_append)

lemma chunks_of_snoc_snapshot: "chunks_of g (xs @ [Snapshot p]) = chunks_of g xs"
  by (simp add: chunks_of_append)

lemma chunks_of_no_group: "g \<notin> group_ids xs \<Longrightarrow> chunks_of g xs = Map.empty"
  by (induction xs rule: group_ids.induct) auto

lemma group_ids_append: "group_ids (xs @ ys) = group_ids xs \<union> group_ids ys"
  by (induction xs rule: group_ids.induct) auto

lemma first_appearances_snoc:
  "first_appearances seen (xs @ [x]) =
     first_appearances seen xs @
       (case x of
          Chunk c \<Rightarrow> if snapshot_id c \<in> seen \<union> group_ids xs then [] else [x]
        | Snapshot p \<Rightarrow> [x])"
  by (induction seen xs rule: first_appearances.induct) (auto split: chunk_or_snapshot.splits)

lemma first_appearances_chunk_in:
  "Chunk c \<in> set (first_appearances seen xs) \<Longrightarrow> snapshot_id c \<in> group_ids xs \<and> snapshot_id c \<notin> seen"
  by (induction seen xs rule: first_appearances.induct) (auto split: if_splits)

text \<open>
  Writing through a position of a list, when the position is the only one whose
  element has a given property.
\<close>

lemma map_update_unique:
  assumes a: "a < length L" and Pa: "P (L ! a)"
    and uniq: "\<And>j. j < length L \<Longrightarrow> P (L ! j) \<Longrightarrow> j = a"
  shows "(map h L)[a := f (map h L ! a)] = map (\<lambda>u. if P u then f (h u) else h u) L"
proof (rule nth_equalityI)
  show "length ((map h L)[a := f (map h L ! a)]) = length (map (\<lambda>u. if P u then f (h u) else h u) L)"
    by simp
next
  fix i assume "i < length ((map h L)[a := f (map h L ! a)])"
  then have i: "i < length L" by simp
  show "(map h L)[a := f (map h L ! a)] ! i = map (\<lambda>u. if P u then f (h u) else h u) L ! i"
  proof (cases "i = a")
    case True
    with a Pa show ?thesis by simp
  next
    case False
    with uniq[OF i] have "\<not> P (L ! i)" by blast
    with False i show ?thesis by simp
  qed
qed

text \<open>
  The invariant of the first loop holds at the start and is kept by every step.
\<close>

lemma collectedI:
  assumes "es = map (unit_entry xs) (first_appearances {} xs)"
    and "\<And>j c. j < length (first_appearances {} xs) \<Longrightarrow> first_appearances {} xs ! j = Chunk c
            \<Longrightarrow> cs (snapshot_id c) = Some j"
    and "\<And>g a. cs g = Some a \<Longrightarrow> a < length (first_appearances {} xs)
                \<and> (\<exists>c. first_appearances {} xs ! a = Chunk c \<and> snapshot_id c = g)"
    and "\<And>g. cs g = None \<longleftrightarrow> g \<notin> group_ids xs"
  shows "collected xs (cs, es)"
  using assms unfolding collected_def by simp

lemma collected_empty: "collected [] (Map.empty, [])"
  by (rule collectedI) simp_all

lemma collected_snapshot:
  assumes "collected xs (cs, es)"
  shows "collected (xs @ [Snapshot p]) (collect_step (cs, es) (Snapshot p))"
proof -
  let ?L = "first_appearances {} xs"
  have es: "es = map (unit_entry xs) ?L"
    and c1: "\<And>j c. j < length ?L \<Longrightarrow> ?L ! j = Chunk c \<Longrightarrow> cs (snapshot_id c) = Some j"
    and c2: "\<And>g a. cs g = Some a \<Longrightarrow> a < length ?L \<and> (\<exists>c. ?L ! a = Chunk c \<and> snapshot_id c = g)"
    and c3: "\<And>g. cs g = None \<longleftrightarrow> g \<notin> group_ids xs"
    using assms unfolding collected_def by simp_all
  have L': "first_appearances {} (xs @ [Snapshot p]) = ?L @ [Snapshot p]"
    by (simp add: first_appearances_snoc)
  have ue: "unit_entry (xs @ [Snapshot p]) u = unit_entry xs u" for u
    by (cases u) (simp_all add: chunks_of_snoc_snapshot)
  have "collected (xs @ [Snapshot p]) (cs, es @ [SnapshotData p])"
  proof (rule collectedI)
    show "es @ [SnapshotData p] =
        map (unit_entry (xs @ [Snapshot p])) (first_appearances {} (xs @ [Snapshot p]))"
      by (simp add: L' ue es)
  next
    fix j c
    assume j: "j < length (first_appearances {} (xs @ [Snapshot p]))"
      and jc: "first_appearances {} (xs @ [Snapshot p]) ! j = Chunk c"
    from j jc have "j < length ?L"
      unfolding L' by (cases "j = length ?L") (simp_all add: nth_append)
    with jc have "?L ! j = Chunk c" unfolding L' by (simp add: nth_append)
    with \<open>j < length ?L\<close> show "cs (snapshot_id c) = Some j" by (rule c1)
  next
    fix g a assume "cs g = Some a"
    from c2[OF this] show "a < length (first_appearances {} (xs @ [Snapshot p])) \<and>
        (\<exists>c. first_appearances {} (xs @ [Snapshot p]) ! a = Chunk c \<and> snapshot_id c = g)"
      unfolding L' by (auto simp: nth_append)
  next
    fix g show "cs g = None \<longleftrightarrow> g \<notin> group_ids (xs @ [Snapshot p])"
      by (simp add: c3 group_ids_append)
  qed
  then show ?thesis by simp
qed

lemma collected_new_group:
  assumes "collected xs (cs, es)" and new: "cs (snapshot_id c) = None"
  shows "collected (xs @ [Chunk c]) (collect_step (cs, es) (Chunk c))"
proof -
  let ?L = "first_appearances {} xs"
  let ?g = "snapshot_id c"
  have es: "es = map (unit_entry xs) ?L"
    and c1: "\<And>j c. j < length ?L \<Longrightarrow> ?L ! j = Chunk c \<Longrightarrow> cs (snapshot_id c) = Some j"
    and c2: "\<And>g a. cs g = Some a \<Longrightarrow> a < length ?L \<and> (\<exists>c. ?L ! a = Chunk c \<and> snapshot_id c = g)"
    and c3: "\<And>g. cs g = None \<longleftrightarrow> g \<notin> group_ids xs"
    using assms(1) unfolding collected_def by simp_all
  from new c3 have fresh: "?g \<notin> group_ids xs" by simp
  have L': "first_appearances {} (xs @ [Chunk c]) = ?L @ [Chunk c]"
    using fresh by (simp add: first_appearances_snoc)
  have len: "length es = length ?L" by (simp add: es)
  have ue: "unit_entry (xs @ [Chunk c]) u = unit_entry xs u" if "u \<in> set ?L" for u
  proof (cases u)
    case (Chunk c')
    with that have "snapshot_id c' \<in> group_ids xs"
      using first_appearances_chunk_in by blast
    with fresh have "snapshot_id c \<noteq> snapshot_id c'" by auto
    with Chunk show ?thesis by (simp add: chunks_of_snoc_chunk)
  next
    case (Snapshot p)
    then show ?thesis by simp
  qed
  have step: "collect_step (cs, es) (Chunk c) =
      (cs(?g \<mapsto> length es),
       es @ [Collector c (chunk_count c) [chunk_index c \<mapsto> chunk_data c]])"
    using new by simp
  have "collected (xs @ [Chunk c])
      (cs(?g \<mapsto> length es), es @ [Collector c (chunk_count c) [chunk_index c \<mapsto> chunk_data c]])"
  proof (rule collectedI)
    have "unit_entry (xs @ [Chunk c]) (Chunk c)
        = Collector c (chunk_count c) [chunk_index c \<mapsto> chunk_data c]"
      using fresh by (simp add: chunks_of_snoc_chunk chunks_of_no_group)
    moreover have "map (unit_entry (xs @ [Chunk c])) ?L = map (unit_entry xs) ?L"
      using ue by simp
    ultimately show "es @ [Collector c (chunk_count c) [chunk_index c \<mapsto> chunk_data c]] =
        map (unit_entry (xs @ [Chunk c])) (first_appearances {} (xs @ [Chunk c]))"
      by (simp add: L' es)
  next
    fix j c'
    assume j: "j < length (first_appearances {} (xs @ [Chunk c]))"
      and jc: "first_appearances {} (xs @ [Chunk c]) ! j = Chunk c'"
    show "(cs(?g \<mapsto> length es)) (snapshot_id c') = Some j"
    proof (cases "j = length ?L")
      case True
      with jc have "c' = c" unfolding L' by simp
      with True len show ?thesis by simp
    next
      case False
      with j have jl: "j < length ?L" unfolding L' by simp
      with jc have jc': "?L ! j = Chunk c'" unfolding L' by (simp add: nth_append)
      then have "Chunk c' \<in> set ?L" using jl by (metis nth_mem)
      then have "snapshot_id c' \<in> group_ids xs"
        using first_appearances_chunk_in by blast
      with fresh have "snapshot_id c' \<noteq> ?g" by auto
      with c1[OF jl jc'] show ?thesis by simp
    qed
  next
    fix g a assume ga: "(cs(?g \<mapsto> length es)) g = Some a"
    show "a < length (first_appearances {} (xs @ [Chunk c])) \<and>
        (\<exists>c'. first_appearances {} (xs @ [Chunk c]) ! a = Chunk c' \<and> snapshot_id c' = g)"
    proof (cases "g = ?g")
      case True
      with ga have "a = length ?L" by (simp add: len)
      with True show ?thesis unfolding L' by simp
    next
      case False
      with ga have "cs g = Some a" by simp
      from c2[OF this] show ?thesis unfolding L' by (auto simp: nth_append)
    qed
  next
    fix g show "(cs(?g \<mapsto> length es)) g = None \<longleftrightarrow> g \<notin> group_ids (xs @ [Chunk c])"
      by (simp add: c3 group_ids_append)
  qed
  with step show ?thesis by simp
qed

lemma collected_known_group:
  assumes "collected xs (cs, es)" and known: "cs (snapshot_id c) = Some a"
  shows "collected (xs @ [Chunk c]) (collect_step (cs, es) (Chunk c))"
proof -
  let ?L = "first_appearances {} xs"
  let ?g = "snapshot_id c"
  let ?P = "\<lambda>u. case u of Chunk c' \<Rightarrow> snapshot_id c' = ?g | Snapshot p \<Rightarrow> False"
  let ?f = "\<lambda>e. put_chunk e (chunk_index c) (chunk_data c)"
  have es: "es = map (unit_entry xs) ?L"
    and c1: "\<And>j c. j < length ?L \<Longrightarrow> ?L ! j = Chunk c \<Longrightarrow> cs (snapshot_id c) = Some j"
    and c2: "\<And>g a. cs g = Some a \<Longrightarrow> a < length ?L \<and> (\<exists>c. ?L ! a = Chunk c \<and> snapshot_id c = g)"
    and c3: "\<And>g. cs g = None \<longleftrightarrow> g \<notin> group_ids xs"
    using assms(1) unfolding collected_def by simp_all
  from known c3[of ?g] have old: "?g \<in> group_ids xs" by auto
  have L': "first_appearances {} (xs @ [Chunk c]) = ?L"
    using old by (simp add: first_appearances_snoc)
  from c2[OF known] obtain c0 where a: "a < length ?L" and c0: "?L ! a = Chunk c0"
    and g0: "snapshot_id c0 = ?g" by blast
  have Pa: "?P (?L ! a)" by (simp add: c0 g0)
  have uniq: "j = a" if "j < length ?L" and "?P (?L ! j)" for j
  proof -
    from that(2) obtain c' where jc: "?L ! j = Chunk c'" and "snapshot_id c' = ?g"
      by (cases "?L ! j") simp_all
    with c1[OF that(1) jc] known show ?thesis by simp
  qed
  have step: "collect_step (cs, es) (Chunk c) = (cs, es[a := ?f (es ! a)])"
    using known by simp
  have "es[a := ?f (es ! a)] = map (\<lambda>u. if ?P u then ?f (unit_entry xs u) else unit_entry xs u) ?L"
    unfolding es using a Pa uniq by (rule map_update_unique)
  also have "\<dots> = map (unit_entry (xs @ [Chunk c])) ?L"
  proof (rule map_cong[OF refl])
    fix u assume "u \<in> set ?L"
    show "(if ?P u then ?f (unit_entry xs u) else unit_entry xs u) = unit_entry (xs @ [Chunk c]) u"
      by (cases u) (simp_all add: chunks_of_snoc_chunk)
  qed
  finally have es': "es[a := ?f (es ! a)] = map (unit_entry (xs @ [Chunk c])) ?L" .
  have "collected (xs @ [Chunk c]) (cs, es[a := ?f (es ! a)])"
  proof (rule collectedI)
    show "es[a := ?f (es ! a)] =
        map (unit_entry (xs @ [Chunk c])) (first_appearances {} (xs @ [Chunk c]))"
      unfolding L' by (rule es')
  next
    fix j c'
    assume "j < length (first_appearances {} (xs @ [Chunk c]))"
      and "first_appearances {} (xs @ [Chunk c]) ! j = Chunk c'"
    then show "cs (snapshot_id c') = Some j" unfolding L' by (rule c1)
  next
    fix g a' assume "cs g = Some a'"
    from c2[OF this] show "a' < length (first_appearances {} (xs @ [Chunk c])) \<and>
        (\<exists>c'. first_appearances {} (xs @ [Chunk c]) ! a' = Chunk c' \<and> snapshot_id c' = g)"
      unfolding L' .
  next
    fix g show "cs g = None \<longleftrightarrow> g \<notin> group_ids (xs @ [Chunk c])"
      using old by (auto simp: c3 group_ids_append)
  qed
  with step show ?thesis by simp
qed

lemma collected_step:
  assumes "collected xs st"
  shows "collected (xs @ [x]) (collect_step st x)"
proof -
  obtain cs es where st: "st = (cs, es)" by (cases st)
  show ?thesis
  proof (cases x)
    case (Chunk c)
    show ?thesis
    proof (cases "cs (snapshot_id c)")
      case None
      with assms show ?thesis unfolding st Chunk by (rule collected_new_group)
    next
      case (Some a)
      with assms show ?thesis unfolding st Chunk by (rule collected_known_group)
    qed
  next
    case (Snapshot p)
    with assms show ?thesis unfolding st by (simp only: collected_snapshot)
  qed
qed

lemma collected_loop: "collected xs (collect_loop (Map.empty, []) xs)"
proof (induction xs rule: rev_induct)
  case Nil
  show ?case by (simp add: collected_empty)
next
  case (snoc x xs)
  then show ?case
    by (simp add: collect_loop_append collected_step)
qed

text \<open>
  So the first loop hands to the second the entries of the units of the stream, in the
  order of their first appearance.
\<close>

lemma collect_loop_entries:
  "snd (collect_loop (Map.empty, []) xs) = map (unit_entry xs) (first_appearances {} xs)"
  using collected_loop[of xs] unfolding collected_def by simp

lemma merge_snapshot_chunks_entries:
  "merge_snapshot_chunks loads team_pk session_id xs =
     emit_loop loads (missing_chunks_message team_pk session_id)
       (map (unit_entry xs) (first_appearances {} xs)) [] []"
  unfolding merge_snapshot_chunks_def
  using collect_loop_entries[of xs] by (simp add: case_prod_beta)

text \<open>
  The second loop: what it captures, that what it returns does not depend on the
  messages, and what it returns on the entries of a stream.
\<close>

lemma emit_loop_captured:
  "captured (emit_loop loads m es snaps msgs) = msgs @ replicate (reported loads es) m"
  by (induction loads m es snaps msgs rule: emit_loop.induct)
     (simp_all split: option.splits add: replicate_append_same)

lemma emit_loop_returned_msgs:
  "returned (emit_loop loads m es snaps msgs) = returned (emit_loop loads m' es snaps msgs')"
  by (induction loads m es snaps msgs arbitrary: msgs' rule: emit_loop.induct)
     (simp_all split: option.splits)

lemma emit_loop_units:
  "returned (emit_loop loads m (map (unit_entry xs) L) snaps msgs) =
     (case those (map (unit_output loads xs) L) of
        None \<Rightarrow> Inl JSONDecodeError
      | Some outs \<Rightarrow> Inr (snaps @ concat outs))"
proof (induction L arbitrary: snaps msgs)
  case Nil
  show ?case by simp
next
  case (Cons u L)
  show ?case
  proof (cases u)
    case (Chunk c)
    then show ?thesis
      by (simp add: Cons.IH split: option.splits)
  next
    case (Snapshot p)
    then show ?thesis
      by (simp add: Cons.IH split: option.splits)
  qed
qed

text \<open>
  Taking the fragments of one group out of a stream.
\<close>

lemma first_appearances_insert_filter:
  "filter (\<lambda>x. \<not> in_group g x) (first_appearances (insert g seen) xs)
     = filter (\<lambda>x. \<not> in_group g x) (first_appearances seen xs)"
proof (induction seen xs rule: first_appearances.induct)
  case (2 seen c xs)
  show ?case
  proof (cases "snapshot_id c = g")
    case True
    with 2 show ?thesis by (simp add: insert_absorb)
  next
    case False
    with 2 show ?thesis by (simp add: insert_commute)
  qed
qed simp_all

lemma group_ids_without_group: "g \<notin> group_ids (without_group g xs)"
  by (induction xs rule: group_ids.induct) (simp_all add: without_group_def)

lemma first_appearances_insert_fresh:
  "g \<notin> group_ids ys \<Longrightarrow> first_appearances (insert g seen) ys = first_appearances seen ys"
  by (induction seen ys rule: first_appearances.induct) (auto simp: insert_commute)

lemma first_appearances_without_group:
  "first_appearances seen (without_group g xs)
     = filter (\<lambda>x. \<not> in_group g x) (first_appearances seen xs)"
proof (induction seen xs rule: first_appearances.induct)
  case (2 seen c xs)
  show ?case
  proof (cases "snapshot_id c = g")
    case True
    show ?thesis
    proof (cases "g \<in> seen")
      case in_seen: True
      with True 2 show ?thesis by (simp add: without_group_def)
    next
      case False
      have "first_appearances seen (without_group g xs)
          = first_appearances (insert g seen) (without_group g xs)"
        by (simp add: first_appearances_insert_fresh group_ids_without_group)
      also have "\<dots> = filter (\<lambda>x. \<not> in_group g x) (first_appearances (insert g seen) xs)"
        using 2(2) True False by simp
      finally show ?thesis
        using True False by (simp add: without_group_def)
    qed
  next
    case False
    with 2 show ?thesis by (simp add: without_group_def)
  qed
qed (simp_all add: without_group_def)

lemma chunks_of_without_group:
  "g' \<noteq> g \<Longrightarrow> chunks_of g' (without_group g xs) = chunks_of g' xs"
  by (induction g' xs rule: chunks_of.induct) (auto simp: without_group_def)

lemma unit_entry_without_group:
  "\<not> in_group g u \<Longrightarrow> unit_entry (without_group g xs) u = unit_entry xs u"
  by (cases u) (simp_all add: chunks_of_without_group)

lemma leaders_in_group:
  "length (filter (in_group g) (first_appearances seen xs))
     = (if g \<in> group_ids xs \<and> g \<notin> seen then 1 else 0)"
  by (induction seen xs rule: first_appearances.induct) auto

lemma first_appearances_unique:
  assumes "Chunk c \<in> set (first_appearances {} xs)" and "Chunk c' \<in> set (first_appearances {} xs)"
    and "snapshot_id c = snapshot_id c'"
  shows "c = c'"
proof -
  let ?L = "first_appearances {} xs"
  obtain cs es where st: "collect_loop (Map.empty, []) xs = (cs, es)"
    by (cases "collect_loop (Map.empty, []) xs")
  have c1: "\<And>j c. j < length ?L \<Longrightarrow> ?L ! j = Chunk c \<Longrightarrow> cs (snapshot_id c) = Some j"
    using collected_loop[of xs] unfolding collected_def st by simp
  from assms(1) obtain j where j: "j < length ?L" "?L ! j = Chunk c"
    by (auto simp: in_set_conv_nth)
  from assms(2) obtain k where k: "k < length ?L" "?L ! k = Chunk c'"
    by (auto simp: in_set_conv_nth)
  from c1[OF j] c1[OF k] assms(3) have "j = k" by simp
  with j k show ?thesis by simp
qed

text \<open>
  Entries of a group that fails the completeness test add nothing to what is returned,
  and one message each to what is captured.
\<close>

lemma drop_incomplete_returned:
  assumes "\<And>c. Chunk c \<in> set L \<Longrightarrow> snapshot_id c = g \<Longrightarrow>
             join_chunks (chunks_of g xs) (py_range (chunk_count c)) [] = None"
  shows "returned (emit_loop loads m (map (unit_entry xs) L) snaps msgs)
       = returned (emit_loop loads m (map (unit_entry xs) (filter (\<lambda>x. \<not> in_group g x) L)) snaps msgs)"
  using assms
proof (induction L arbitrary: snaps msgs)
  case Nil
  show ?case by simp
next
  case (Cons u L)
  have IH: "returned (emit_loop loads m (map (unit_entry xs) L) s ms)
       = returned (emit_loop loads m (map (unit_entry xs) (filter (\<lambda>x. \<not> in_group g x) L)) s ms)" for s ms
    by (rule Cons.IH) (simp add: Cons.prems)
  show ?case
  proof (cases u)
    case (Snapshot p)
    then show ?thesis by (simp add: IH)
  next
    case (Chunk c)
    show ?thesis
    proof (cases "snapshot_id c = g")
      case True
      with Chunk Cons.prems[of c]
      have "join_chunks (chunks_of g xs) (py_range (chunk_count c)) [] = None" by simp
      with True Chunk show ?thesis
        using emit_loop_returned_msgs[of loads m _ snaps "msgs @ [m]" m msgs]
        by (simp add: IH)
    next
      case False
      with Chunk show ?thesis by (simp add: IH split: option.splits)
    qed
  qed
qed

lemma drop_incomplete_reported:
  assumes "\<And>c. Chunk c \<in> set L \<Longrightarrow> snapshot_id c = g \<Longrightarrow>
             join_chunks (chunks_of g xs) (py_range (chunk_count c)) [] = None"
    and "those (map (unit_output loads xs) L) \<noteq> None"
  shows "reported loads (map (unit_entry xs) L)
       = reported loads (map (unit_entry xs) (filter (\<lambda>x. \<not> in_group g x) L))
         + length (filter (in_group g) L)"
  using assms
proof (induction L)
  case Nil
  show ?case by simp
next
  case (Cons u L)
  from Cons.prems(2) have ok: "those (map (unit_output loads xs) L) \<noteq> None"
    by (auto split: option.splits)
  have IH: "reported loads (map (unit_entry xs) L)
       = reported loads (map (unit_entry xs) (filter (\<lambda>x. \<not> in_group g x) L))
         + length (filter (in_group g) L)"
    by (rule Cons.IH) (simp_all add: Cons.prems(1) ok)
  show ?case
  proof (cases u)
    case (Snapshot p)
    then show ?thesis by (simp add: IH)
  next
    case (Chunk c)
    show ?thesis
    proof (cases "snapshot_id c = g")
      case True
      with Chunk Cons.prems(1)[of c]
      have "join_chunks (chunks_of g xs) (py_range (chunk_count c)) [] = None" by simp
      with True Chunk show ?thesis by (simp add: IH)
    next
      case False
      with Chunk Cons.prems(2) show ?thesis
        by (auto simp: IH split: option.splits)
    qed
  qed
qed

text \<open>
  The completeness test.
\<close>

lemma in_py_range: "i \<in> set (py_range n) \<longleftrightarrow> 0 \<le> i \<and> i < n"
  by (auto simp: py_range_def)

lemma join_chunks_missing:
  "i \<in> set js \<Longrightarrow> chunks i = None \<or> chunks i = Some [] \<Longrightarrow> join_chunks chunks js data = None"
  by (induction chunks js data rule: join_chunks.induct) (auto split: option.splits)

lemma join_chunks_all:
  "(\<And>i. i \<in> set js \<Longrightarrow> chunks i = Some (payload i) \<and> payload i \<noteq> []) \<Longrightarrow>
     join_chunks chunks js data = Some (data @ concat (map payload js))"
  by (induction chunks js data rule: join_chunks.induct) auto

text \<open>
  A collector that the first loop builds is the entry of a unit of the stream; when
  its group fails the completeness test, the outcome is that of the stream without the
  group, with one more message.
\<close>

lemma collector_of_stream:
  assumes "Collector event n chunks \<in> set (snd (collect_loop (Map.empty, []) xs))"
  shows "Chunk event \<in> set (first_appearances {} xs) \<and> n = chunk_count event
           \<and> chunks = chunks_of (snapshot_id event) xs"
proof -
  from assms obtain u where u: "u \<in> set (first_appearances {} xs)"
    and e: "unit_entry xs u = Collector event n chunks"
    unfolding collect_loop_entries by auto
  from e show ?thesis using u by (cases u) auto
qed

lemma incomplete_group_dropped:
  assumes lead: "Chunk c \<in> set (first_appearances {} xs)"
    and inc: "join_chunks (chunks_of (snapshot_id c) xs) (py_range (chunk_count c)) [] = None"
  shows "returned (merge_snapshot_chunks loads team_pk session_id xs)
           = returned (merge_snapshot_chunks loads team_pk session_id (without_group (snapshot_id c) xs))"
    and "returned (merge_snapshot_chunks loads team_pk session_id xs) \<noteq> Inl JSONDecodeError \<Longrightarrow>
         captured (merge_snapshot_chunks loads team_pk session_id xs)
           = missing_chunks_message team_pk session_id
             # captured (merge_snapshot_chunks loads team_pk session_id (without_group (snapshot_id c) xs))"
proof -
  let ?g = "snapshot_id c"
  let ?L = "first_appearances {} xs"
  let ?m = "missing_chunks_message team_pk session_id"
  let ?keep = "\<lambda>x. \<not> in_group ?g x"
  have all: "join_chunks (chunks_of ?g xs) (py_range (chunk_count c')) [] = None"
    if "Chunk c' \<in> set ?L" and "snapshot_id c' = ?g" for c'
  proof -
    from lead that have "c = c'" by (intro first_appearances_unique[of c xs c']) simp_all
    with inc show ?thesis by simp
  qed
  have entries': "map (unit_entry (without_group ?g xs)) (first_appearances {} (without_group ?g xs))
      = map (unit_entry xs) (filter ?keep ?L)"
    unfolding first_appearances_without_group
    by (rule map_cong[OF refl]) (simp add: unit_entry_without_group)
  show ret: "returned (merge_snapshot_chunks loads team_pk session_id xs)
           = returned (merge_snapshot_chunks loads team_pk session_id (without_group ?g xs))"
    unfolding merge_snapshot_chunks_entries entries'
    using all by (rule drop_incomplete_returned)
  assume "returned (merge_snapshot_chunks loads team_pk session_id xs) \<noteq> Inl JSONDecodeError"
  then have ok: "those (map (unit_output loads xs) ?L) \<noteq> None"
    unfolding merge_snapshot_chunks_entries emit_loop_units by (auto split: option.splits)
  from lead have "?g \<in> group_ids xs"
    using first_appearances_chunk_in by blast
  then have one: "length (filter (in_group ?g) ?L) = 1"
    by (simp add: leaders_in_group)
  have "reported loads (map (unit_entry xs) ?L)
      = reported loads (map (unit_entry xs) (filter ?keep ?L)) + length (filter (in_group ?g) ?L)"
    using all ok by (rule drop_incomplete_reported)
  with one have "reported loads (map (unit_entry xs) ?L)
      = Suc (reported loads (map (unit_entry xs) (filter ?keep ?L)))" by simp
  then show "captured (merge_snapshot_chunks loads team_pk session_id xs)
           = ?m # captured (merge_snapshot_chunks loads team_pk session_id (without_group ?g xs))"
    unfolding merge_snapshot_chunks_entries entries' emit_loop_captured by simp
qed

text \<open>
  The chunks recorded for a group come from its fragments.
\<close>

lemma first_appearances_all_seen:
  "\<forall>x \<in> set xs. in_group g x \<Longrightarrow> g \<in> seen \<Longrightarrow> first_appearances seen xs = []"
  by (induction seen xs rule: first_appearances.induct) auto

lemma chunks_of_SomeD:
  "chunks_of g xs i = Some d \<Longrightarrow>
     \<exists>c. Chunk c \<in> set xs \<and> snapshot_id c = g \<and> chunk_index c = i \<and> chunk_data c = d"
  by (induction g xs rule: chunks_of.induct) (auto simp: map_add_Some_iff split: if_splits)

lemma chunks_of_dom:
  "chunks_of g xs i \<noteq> None \<longleftrightarrow>
     (\<exists>c. Chunk c \<in> set xs \<and> snapshot_id c = g \<and> chunk_index c = i)"
proof (induction xs)
  case Nil
  show ?case by simp
next
  case (Cons x xs)
  show ?case
  proof (cases x)
    case (Chunk c)
    with Cons show ?thesis
      by (auto simp: map_add_def split: option.splits)
  next
    case (Snapshot p)
    with Cons show ?thesis by simp
  qed
qed

lemma chunks_of_recorded:
  "Chunk c \<in> set xs \<Longrightarrow> snapshot_id c = g \<Longrightarrow> chunks_of g xs (chunk_index c) \<noteq> None"
  unfolding chunks_of_dom by blast




text \<open>
  A collector with fewer recorded indices than its count lacks an index below the
  count.
\<close>

lemma chunks_of_finite: "finite (dom (chunks_of g xs))"
  by (induction g xs rule: chunks_of.induct) simp_all

lemma short_collector_misses_index:
  assumes "finite (dom chunks)" and "card (dom chunks) < nat n"
  shows "\<exists>i. 0 \<le> i \<and> i < n \<and> chunks i = None"
proof (rule ccontr)
  assume "\<not> (\<exists>i. 0 \<le> i \<and> i < n \<and> chunks i = None)"
  then have "{0..<n} \<subseteq> dom chunks" by auto
  with assms(1) have "card {0..<n} \<le> card (dom chunks)" by (rule card_mono)
  with assms(2) show False by simp
qed

lemma collector_short_of_count:
  assumes "Collector event n chunks \<in> set (snd (collect_loop (Map.empty, []) xs))"
    and "card (dom chunks) < nat n"
  shows "\<exists>i. 0 \<le> i \<and> i < n \<and> chunks i = None"
proof -
  from collector_of_stream[OF assms(1)] have "chunks = chunks_of (snapshot_id event) xs" by simp
  then have "finite (dom chunks)" by (simp add: chunks_of_finite)
  then show ?thesis using assms(2) by (rule short_collector_misses_index)
qed

text \<open>
  The group that first appears after a prefix of the stream splits the units of the
  stream in those before it and those after it; the second loop captures a message for
  it when it gets as far, that is, when no complete group before it fails to decode.
\<close>

lemma first_appearances_append:
  "first_appearances seen (xs @ ys)
     = first_appearances seen xs @ first_appearances (seen \<union> group_ids xs) ys"
  by (induction seen xs rule: first_appearances.induct) (simp_all add: insert_absorb)

lemma entries_without_group:
  "map (unit_entry (without_group g xs)) (first_appearances {} (without_group g xs))
     = map (unit_entry xs) (filter (\<lambda>x. \<not> in_group g x) (first_appearances {} xs))"
  unfolding first_appearances_without_group
  by (rule map_cong[OF refl]) (simp add: unit_entry_without_group)

lemma reported_append:
  "reported loads (map (unit_entry xs) L @ es)
     = reported loads (map (unit_entry xs) L)
       + (if those (map (unit_output loads xs) L) = None then 0 else reported loads es)"
proof (induction L)
  case Nil
  show ?case by simp
next
  case (Cons u L)
  show ?case
  proof (cases u)
    case (Chunk c)
    with Cons show ?thesis by (simp split: option.splits)
  next
    case (Snapshot p)
    with Cons show ?thesis by (simp split: option.splits)
  qed
qed

lemma filter_no_group:
  "(\<And>c. Chunk c \<in> set L \<Longrightarrow> snapshot_id c \<noteq> g) \<Longrightarrow> filter (\<lambda>x. \<not> in_group g x) L = L"
proof (induction L)
  case Nil
  show ?case by simp
next
  case (Cons u L)
  then show ?case by (cases u) auto
qed

lemma first_appearances_split:
  assumes "snapshot_id c \<notin> group_ids pre"
  shows "first_appearances {} (pre @ Chunk c # post)
           = first_appearances {} pre @ Chunk c
               # first_appearances (insert (snapshot_id c) (group_ids pre)) post"
    and "filter (\<lambda>x. \<not> in_group (snapshot_id c) x) (first_appearances {} (pre @ Chunk c # post))
           = first_appearances {} pre
               @ first_appearances (insert (snapshot_id c) (group_ids pre)) post"
proof -
  let ?g = "snapshot_id c"
  let ?L1 = "first_appearances {} pre"
  let ?L2 = "first_appearances (insert ?g (group_ids pre)) post"
  show eq: "first_appearances {} (pre @ Chunk c # post) = ?L1 @ Chunk c # ?L2"
    using assms by (simp add: first_appearances_append)
  have k1: "filter (\<lambda>x. \<not> in_group ?g x) ?L1 = ?L1"
  proof (rule filter_no_group)
    fix c' assume "Chunk c' \<in> set ?L1"
    then have "snapshot_id c' \<in> group_ids pre" using first_appearances_chunk_in by blast
    with assms show "snapshot_id c' \<noteq> ?g" by auto
  qed
  have k2: "filter (\<lambda>x. \<not> in_group ?g x) ?L2 = ?L2"
  proof (rule filter_no_group)
    fix c' assume "Chunk c' \<in> set ?L2"
    then have "snapshot_id c' \<notin> insert ?g (group_ids pre)"
      using first_appearances_chunk_in by blast
    then show "snapshot_id c' \<noteq> ?g" by auto
  qed
  show "filter (\<lambda>x. \<not> in_group ?g x) (first_appearances {} (pre @ Chunk c # post)) = ?L1 @ ?L2"
    unfolding eq by (simp add: k1 k2)
qed

lemma incomplete_group_reported:
  assumes split: "xs = pre @ Chunk c # post" and fresh: "snapshot_id c \<notin> group_ids pre"
    and inc: "join_chunks (chunks_of (snapshot_id c) xs) (py_range (chunk_count c)) [] = None"
  shows "captured (merge_snapshot_chunks loads team_pk session_id xs)
           = (if decoded_before loads xs pre
              then missing_chunks_message team_pk session_id
                   # captured (merge_snapshot_chunks loads team_pk session_id
                                (without_group (snapshot_id c) xs))
              else captured (merge_snapshot_chunks loads team_pk session_id
                               (without_group (snapshot_id c) xs)))"
proof -
  let ?g = "snapshot_id c"
  let ?m = "missing_chunks_message team_pk session_id"
  let ?L1 = "first_appearances {} pre"
  let ?L2 = "first_appearances (insert ?g (group_ids pre)) post"
  let ?ue = "unit_entry xs"
  have L: "first_appearances {} xs = ?L1 @ Chunk c # ?L2"
    and K: "filter (\<lambda>x. \<not> in_group ?g x) (first_appearances {} xs) = ?L1 @ ?L2"
    unfolding split using first_appearances_split[OF fresh, of post] by simp_all
  have with_g: "reported loads (map ?ue (?L1 @ Chunk c # ?L2))
      = reported loads (map ?ue ?L1)
        + (if those (map (unit_output loads xs) ?L1) = None then 0
           else Suc (reported loads (map ?ue ?L2)))"
    using reported_append[of loads xs ?L1 "map ?ue (Chunk c # ?L2)"] inc by simp
  have without_g: "reported loads (map ?ue (?L1 @ ?L2))
      = reported loads (map ?ue ?L1)
        + (if those (map (unit_output loads xs) ?L1) = None then 0
           else reported loads (map ?ue ?L2))"
    using reported_append[of loads xs ?L1 "map ?ue ?L2"] by simp
  have e1: "captured (merge_snapshot_chunks loads team_pk session_id xs)
      = replicate (reported loads (map ?ue (?L1 @ Chunk c # ?L2))) ?m"
    unfolding merge_snapshot_chunks_entries emit_loop_captured L by simp
  have e2: "captured (merge_snapshot_chunks loads team_pk session_id (without_group ?g xs))
      = replicate (reported loads (map ?ue (?L1 @ ?L2))) ?m"
    unfolding merge_snapshot_chunks_entries entries_without_group K emit_loop_captured by simp
  show ?thesis
    unfolding e1 e2 with_g without_g decoded_before_def by simp
qed

text \<open>
  What a returned list holds: every full snapshot of the stream and the decoded payload
  of every complete group. An incomplete group leaves the returned value that of the
  other units.
\<close>

lemma those_map_member:
  "those (map f L) = Some outs \<Longrightarrow> u \<in> set L \<Longrightarrow>
     \<exists>out. f u = Some out \<and> set out \<subseteq> set (concat outs)"
proof (induction L arbitrary: outs)
  case Nil
  then show ?case by simp
next
  case (Cons a L)
  from Cons.prems(1) obtain o1 rest where a: "f a = Some o1" and r: "those (map f L) = Some rest"
    and outs: "outs = o1 # rest"
    by (auto split: option.splits)
  show ?case
  proof (cases "u = a")
    case True
    with a outs show ?thesis by auto
  next
    case False
    with Cons.prems(2) have "u \<in> set L" by simp
    from Cons.IH[OF r this] outs show ?thesis by auto
  qed
qed

lemma snapshot_first_appearance:
  "Snapshot p \<in> set xs \<Longrightarrow> Snapshot p \<in> set (first_appearances seen xs)"
  by (induction seen xs rule: first_appearances.induct) auto

lemma first_fragment_first_appearance:
  "first_fragment g xs = Some c \<Longrightarrow> g \<notin> seen \<Longrightarrow> Chunk c \<in> set (first_appearances seen xs)"
proof (induction seen xs rule: first_appearances.induct)
  case (1 seen)
  then show ?case by simp
next
  case (2 seen c0 xs)
  show ?case
  proof (cases "snapshot_id c0 = g")
    case True
    with 2(3,4) show ?thesis by simp
  next
    case False
    with 2(3) have ff: "first_fragment g xs = Some c" by simp
    show ?thesis
    proof (cases "snapshot_id c0 \<in> seen")
      case True
      with 2(1)[OF True ff 2(4)] show ?thesis by simp
    next
      case nseen: False
      from False 2(4) have "g \<notin> insert (snapshot_id c0) seen" by auto
      with 2(2)[OF nseen ff] nseen show ?thesis by simp
    qed
  qed
next
  case (3 seen p xs)
  then show ?case by simp
qed


lemma returned_emits:
  assumes "returned (merge_snapshot_chunks loads team_pk session_id xs) = Inr out"
  shows "Snapshot p \<in> set xs \<Longrightarrow> p \<in> set out"
    and "first_fragment (snapshot_id c) xs = Some c \<Longrightarrow>
         join_chunks (chunks_of (snapshot_id c) xs) (py_range (chunk_count c)) [] = Some data \<Longrightarrow>
         loads data = Some v \<Longrightarrow> v \<in> set out"
proof -
  from assms obtain outs where
    outs: "those (map (unit_output loads xs) (first_appearances {} xs)) = Some outs"
    and out: "out = concat outs"
    unfolding merge_snapshot_chunks_entries emit_loop_units by (auto split: option.splits)
  {
    assume "Snapshot p \<in> set xs"
    then have "Snapshot p \<in> set (first_appearances {} xs)" by (rule snapshot_first_appearance)
    from those_map_member[OF outs this] show "p \<in> set out" unfolding out by auto
  }
  {
    assume ff: "first_fragment (snapshot_id c) xs = Some c"
      and j: "join_chunks (chunks_of (snapshot_id c) xs) (py_range (chunk_count c)) [] = Some data"
      and l: "loads data = Some v"
    from ff have "Chunk c \<in> set (first_appearances {} xs)"
      by (rule first_fragment_first_appearance) simp
    from those_map_member[OF outs this] j l show "v \<in> set out" unfolding out by auto
  }
qed

lemma incomplete_group_output:
  assumes lead: "Chunk c \<in> set (first_appearances {} xs)"
    and inc: "join_chunks (chunks_of (snapshot_id c) xs) (py_range (chunk_count c)) [] = None"
  shows "returned (merge_snapshot_chunks loads team_pk session_id xs)
           = first_appearance_output loads (without_group (snapshot_id c) xs)"
proof -
  have "returned (merge_snapshot_chunks loads team_pk session_id xs)
      = returned (merge_snapshot_chunks loads team_pk session_id (without_group (snapshot_id c) xs))"
    using lead inc by (rule incomplete_group_dropped(1))
  also have "\<dots> = first_appearance_output loads (without_group (snapshot_id c) xs)"
    unfolding merge_snapshot_chunks_entries first_appearance_output_def
    by (simp add: emit_loop_units split: option.splits)
  finally show ?thesis .
qed

text \<open>
  When a complete group that first appears in a prefix of the stream fails to decode,
  the call raises.
\<close>

lemma those_append_None: "those (map f L) = None \<Longrightarrow> those (map f (L @ M)) = None"
  by (induction L) (auto split: option.splits)

lemma undecoded_before_raises:
  assumes "xs = pre @ post" and "\<not> decoded_before loads xs pre"
  shows "returned (merge_snapshot_chunks loads team_pk session_id xs) = Inl JSONDecodeError"
proof -
  from assms(2) have "those (map (unit_output loads xs) (first_appearances {} pre)) = None"
    by (simp add: decoded_before_def)
  then have "those (map (unit_output loads xs) (first_appearances {} xs)) = None"
    unfolding assms(1) first_appearances_append
    using those_append_None[of "unit_output loads (pre @ post)"] by simp
  then show ?thesis
    unfolding merge_snapshot_chunks_entries by (simp add: emit_loop_units)
qed

section \<open>Properties of the retention computation\<close>

text \<open>
  The matrix: the fold of the rows gives each key the count of its last row, and the
  rows built have the shape of the triangle.
\<close>

lemma py_range_length: "length (py_range n) = nat n"
  by (simp add: py_range_def)

lemma py_range_nth: "i < nat n \<Longrightarrow> py_range n ! i = int i"
  unfolding py_range_def by (simp add: nth_upto)

lemma fold_rows_lookup:
  "fold_rows result_dict rows key =
     (case last_count rows key of
        Some c \<Rightarrow> Some \<lparr>cell_count = c, people = []\<rparr>
      | None \<Rightarrow> result_dict key)"
proof (induction rows arbitrary: result_dict)
  case Nil
  show ?case by simp
next
  case (Cons r rows)
  obtain r0 r1 r2 where r: "r = (r0, r1, r2)" by (cases r)
  have "fold_rows result_dict (r # rows) key
      = fold_rows (result_dict((r0, r1) \<mapsto> \<lparr>cell_count = r2, people = []\<rparr>)) rows key"
    by (simp add: r)
  also have "\<dots> = (case last_count rows key of
        Some c \<Rightarrow> Some \<lparr>cell_count = c, people = []\<rparr>
      | None \<Rightarrow> (result_dict((r0, r1) \<mapsto> \<lparr>cell_count = r2, people = []\<rparr>)) key)"
    by (rule Cons.IH)
  also have "\<dots> = (case last_count (r # rows) key of
        Some c \<Rightarrow> Some \<lparr>cell_count = c, people = []\<rparr>
      | None \<Rightarrow> result_dict key)"
    by (simp add: r split: option.splits)
  finally show ?case .
qed

lemma get_cell_fold_rows:
  "get_cell (fold_rows Map.empty rows) key = cell_of (last_count rows key)"
  by (simp add: get_cell_def cell_of_def fold_rows_lookup split: option.splits)

lemma last_count_None: "last_count rows (a, b) = None \<longleftrightarrow> (\<forall>c. (a, b, c) \<notin> set rows)"
  by (induction rows "(a, b)" rule: last_count.induct) (auto split: option.splits)

lemma parsed_rows_shape:
  "parsed_rows env result_dict p date_from n firsts = Inr rs \<Longrightarrow>
     length rs = length firsts
     \<and> (\<forall>k < length firsts.
           row_values (rs ! k)
             = map (\<lambda>day. get_cell result_dict (firsts ! k, day)) (py_range (n - firsts ! k)))"
proof (induction firsts arbitrary: rs)
  case Nil
  then show ?case by simp
next
  case (Cons f firsts)
  from Cons.prems obtain offset tf t1 rest where
    rest: "parsed_rows env result_dict p date_from n firsts = Inr rest"
    and rs: "rs = \<lparr>row_values = map (\<lambda>day. get_cell result_dict (f, day)) (py_range (n - f)),
                   row_label = p @ '' '' @ str_int f,
                   row_date = dt_plus env date_from offset\<rparr> # rest"
    by (auto split: sum.splits)
  from Cons.IH[OF rest] show ?case
    unfolding rs by (auto simp: nth_Cons split: nat.splits)
qed

text \<open>
  A call that returns has issued one query and parsed its rows.
\<close>

lemma calculate_retention_returns:
  assumes "outcome_value (calculate_retention env flt tm n) = Inr parsed"
  shows "\<exists>q date_from. issued (calculate_retention env flt tm n) = [q]
           \<and> parse_result env (sync_execute env q) (resolved_period flt) date_from n = Inr parsed"
  using assms unfolding calculate_retention_def
  by (auto simp: Let_def split: sum.splits prod.splits)

lemma parse_result_shape:
  assumes "parse_result env rows p date_from n = Inr parsed"
  shows "length parsed = nat n"
    and "i < nat n \<Longrightarrow> row_values (parsed ! i)
           = map (\<lambda>day. cell_of (last_count rows (int i, day))) (py_range (n - int i))"
proof -
  from assms obtain df where
    pr: "parsed_rows env (fold_rows Map.empty rows) p df n (py_range n) = Inr parsed"
    unfolding parse_result_def by (auto simp: Let_def)
  from parsed_rows_shape[OF pr] show "length parsed = nat n"
    by (simp add: py_range_length)
  assume i: "i < nat n"
  with parsed_rows_shape[OF pr] show "row_values (parsed ! i)
           = map (\<lambda>day. cell_of (last_count rows (int i, day))) (py_range (n - int i))"
    by (simp add: py_range_length py_range_nth get_cell_fold_rows)
qed

text \<open>
  \<open>calculate_retention\<close> returns rows whenever the period is one of the four units
  and the event filter can be built (every action it names exists).
\<close>

lemma determineTimedelta_supported:
  "p \<in> {''Hour'', ''Day'', ''Week'', ''Month''} \<Longrightarrow> \<exists>r. determineTimedelta n p = Inr r"
  by (auto simp: determineTimedelta_def)

lemma parsed_rows_supported:
  "p \<in> {''Hour'', ''Day'', ''Week'', ''Month''} \<Longrightarrow>
     \<exists>rs. parsed_rows env result_dict p date_from n firsts = Inr rs"
proof (induction firsts)
  case Nil
  show ?case by simp
next
  case (Cons f firsts)
  from determineTimedelta_supported[OF Cons.prems, of f]
  obtain offset tf t1 where "determineTimedelta f p = Inr (offset, tf, t1)"
    by (metis prod_cases3)
  moreover from Cons.IH[OF Cons.prems]
  obtain rest where "parsed_rows env result_dict p date_from n firsts = Inr rest" by blast
  ultimately show ?case by simp
qed

lemma get_event_filter_cong:
  assumes "retention_type f' = retention_type f" and "target_entity f' = target_entity f"
    and "entities f' = entities f"
  shows "get_event_filter env f' trunc = get_event_filter env f trunc"
  unfolding get_event_filter_def assms ..

lemma resolve_range_filter:
  "retention_type (fst (resolve_range env flt p tdelta t1)) = retention_type flt"
  "target_entity (fst (resolve_range env flt p tdelta t1)) = target_entity flt"
  "entities (fst (resolve_range env flt p tdelta t1)) = entities flt"
  by (simp_all add: resolve_range_def Let_def split: prod.splits)

lemma get_event_filter_trunc:
  assumes "get_event_filter env flt trunc = Inr r"
  shows "\<exists>r'. get_event_filter env flt trunc' = Inr r'"
proof -
  let ?ft = "retention_type flt = RETENTION_FIRST_TIME"
  let ?target = "case target_entity flt of None \<Rightarrow> pageview_entity | Some e \<Rightarrow> e"
  let ?ret = "if ?ft then (if \<not> length (entities flt) > 0 then pageview_entity else hd (entities flt))
              else ?target"
  let ?pre = "if ?ft then ''returning'' else []"
  obtain tq ps where t: "get_condition env ?target [] = Inr (tq, ps)"
    using assms unfolding get_event_filter_def Let_def
    by (cases "get_condition env ?target []") auto
  obtain rq rps where r: "get_condition env ?ret ?pre = Inr (rq, rps)"
    using assms t unfolding get_event_filter_def Let_def
    by (cases "get_condition env ?ret ?pre") auto
  show ?thesis
    unfolding get_event_filter_def Let_def t r by simp
qed

lemma calculate_retention_returns_rows:
  assumes "resolved_period flt \<in> {''Hour'', ''Day'', ''Week'', ''Month''}"
    and "get_event_filter env flt trunc = Inr r"
  shows "\<exists>parsed. outcome_value (calculate_retention env flt tm n) = Inr parsed"
proof -
  from determineTimedelta_supported[OF assms(1), of n]
  obtain tdelta trunc_func t1 where
    dt: "determineTimedelta n (resolved_period flt) = Inr (tdelta, trunc_func, t1)"
    by (metis prod_cases3)
  obtain flt2 date_from date_to where
    rr: "resolve_range env flt (resolved_period flt) tdelta t1 = (flt2, date_from, date_to)"
    by (metis prod_cases3)
  have "get_event_filter env flt2 trunc_func = get_event_filter env flt trunc_func"
    using resolve_range_filter[of env flt "resolved_period flt" tdelta t1]
    unfolding rr by (intro get_event_filter_cong) simp_all
  with get_event_filter_trunc[OF assms(2), of trunc_func]
  obtain tq rq ps where ef: "get_event_filter env flt2 trunc_func = Inr (tq, rq, ps)"
    by (metis prod_cases3)
  have "\<exists>parsed. parse_result env rows (resolved_period flt) date_from n = Inr parsed" for rows
    unfolding parse_result_def Let_def by (rule parsed_rows_supported[OF assms(1)])
  then show ?thesis
    unfolding calculate_retention_def by (simp add: Let_def dt rr ef)
qed

text \<open>
  Should the property \<open>date_to\<close> of the filter return what is stored in \<open>_date_to\<close>,
  the assignment of line 31 is read back at line 37, and the anchor of a filter that
  supplies no date is the clock plus one period.
\<close>

lemma resolve_range_reads_stored_date_to:
  assumes "date_to_of env = stored_date_to" and "stored_date_to flt = None"
  shows "snd (snd (resolve_range env flt p tdelta t1))
           = (if p = ''Hour'' then dt_plus env (now env 0) t1
              else replace_midnight (dt_plus env (now env 0) t1))"
  using assms by (simp add: resolve_range_def Let_def)

section \<open>The claims\<close>

subsection \<open>C7: the output follows the order of first appearance\<close>

text \<open>
  C7. For every input stream, the list returned by \<open>merge_snapshot_chunks\<close> is ordered
  by the first appearance of each logical unit in the stream: a full snapshot stands at
  the position of its own arrival and a chunk group at the position of its fragment seen
  first, whenever the group becomes complete. The result of the call is the
  concatenation, over the units in the order of their first appearance, of what each
  unit contributes (judged on the whole stream); the call raises exactly when some
  complete group fails to decode.
\<close>

theorem merge_output_first_appearance_order:
  "returned (merge_snapshot_chunks loads team_pk session_id xs) = first_appearance_output loads xs"
  unfolding merge_snapshot_chunks_entries first_appearance_output_def
  by (simp add: emit_loop_units split: option.splits)

text \<open>
  The group \<open>g\<close> appears first and becomes complete last; its payload still precedes
  the snapshot \<open>5\<close> and the group \<open>h\<close>, which was complete earlier.
\<close>

theorem merge_output_first_appearance_order_witness:
  "returned (merge_snapshot_chunks loads_nat 7 ''s1''
     [Chunk \<lparr>snapshot_id = ''g'', chunk_index = 2, chunk_count = 3, chunk_data = ''3''\<rparr>,
      Snapshot 5,
      Chunk \<lparr>snapshot_id = ''h'', chunk_index = 0, chunk_count = 1, chunk_data = ''9''\<rparr>,
      Chunk \<lparr>snapshot_id = ''g'', chunk_index = 0, chunk_count = 3, chunk_data = ''1''\<rparr>,
      Chunk \<lparr>snapshot_id = ''g'', chunk_index = 1, chunk_count = 3, chunk_data = ''2''\<rparr>])
   = Inr [123, 5, 9]"
  using merge_output_first_appearance_order[of loads_nat 7 "''s1''"
     "[Chunk \<lparr>snapshot_id = ''g'', chunk_index = 2, chunk_count = 3, chunk_data = ''3''\<rparr>,
      Snapshot 5,
      Chunk \<lparr>snapshot_id = ''h'', chunk_index = 0, chunk_count = 1, chunk_data = ''9''\<rparr>,
      Chunk \<lparr>snapshot_id = ''g'', chunk_index = 0, chunk_count = 3, chunk_data = ''1''\<rparr>,
      Chunk \<lparr>snapshot_id = ''g'', chunk_index = 1, chunk_count = 3, chunk_data = ''2''\<rparr>]"]
  by (simp add: first_appearance_output_def loads_nat_def py_range_def upto.simps)

subsection \<open>C10: the declared total is the one of the fragment seen first\<close>



subsection \<open>C3: a complete group is emitted once, whatever the order of arrival\<close>

text \<open>
  C3, as stated, fails: a group whose fragments cover all the indices is not emitted
  when one of the fragments carries the empty string. Below, both indices of the group
  are present, the concatenation in index order decodes to \<open>1\<close>, and the call returns
  no payload and captures the diagnostic.
\<close>

theorem merge_empty_chunk_counterexample:
  "merge_snapshot_chunks loads_nat 7 ''s1''
      [Chunk \<lparr>snapshot_id = ''g'', chunk_index = 0, chunk_count = 2, chunk_data = ''1''\<rparr>,
       Chunk \<lparr>snapshot_id = ''g'', chunk_index = 1, chunk_count = 2, chunk_data = ''''\<rparr>]
     = \<lparr>captured = [missing_chunks_message 7 ''s1''], returned = Inr []\<rparr>
   \<and> loads_nat (''1'' @ '''') = Some 1"
  by (simp add: merge_snapshot_chunks_def loads_nat_def py_range_def upto.simps)

text \<open>
  C3, amended. Let a stream consist of the fragments of one chunk group, arriving in any
  order (\<open>arrival\<close> is a permutation of \<open>frs\<close>), all declaring the same
  \<open>chunk_count\<close> \<open>n\<close>, covering every index from \<open>0\<close> to \<open>n - 1\<close> with non-empty
  data, and agreeing on the data wherever two of them share an index (\<open>payload i\<close> is
  the data at index \<open>i\<close>). Then \<open>merge_snapshot_chunks\<close> captures no diagnostic and
  decodes exactly once: the fragments' data concatenated in increasing index order. It
  returns the one decoded payload, the same for every order of arrival, or raises when
  the decoding does.
\<close>

theorem merge_chunk_order_independent:
  assumes perm: "mset arrival = mset frs" and ne: "frs \<noteq> []"
    and grp: "\<forall>c \<in> set frs. snapshot_id c = g \<and> chunk_count c = n
                \<and> chunk_data c = payload (chunk_index c)"
    and cover: "\<forall>i. 0 \<le> i \<and> i < n \<longrightarrow> (\<exists>c \<in> set frs. chunk_index c = i) \<and> payload i \<noteq> []"
  shows "merge_snapshot_chunks loads team_pk session_id (map Chunk arrival) =
           \<lparr>captured = [],
            returned = (case loads (concat (map payload (py_range n))) of
                          None \<Rightarrow> Inl JSONDecodeError
                        | Some v \<Rightarrow> Inr [v])\<rparr>"
proof -
  let ?xs = "map Chunk arrival :: 'a chunk_or_snapshot list"
  from perm have sets: "set arrival = set frs" by (rule mset_eq_setD)
  from perm ne have "arrival \<noteq> []" by auto
  then obtain c0 rest where arr: "arrival = c0 # rest" by (cases arrival) auto
  from grp sets arr have c0: "snapshot_id c0 = g" "chunk_count c0 = n" by auto
  have ing: "\<forall>x \<in> set (map Chunk rest :: 'a chunk_or_snapshot list). in_group g x"
    using grp sets arr by auto
  have L: "first_appearances {} ?xs = [Chunk c0]"
    unfolding arr using first_appearances_all_seen[OF ing, of "{g}"] c0 by simp
  have rec: "chunks_of g ?xs i = Some (payload i) \<and> payload i \<noteq> []"
    if "i \<in> set (py_range n)" for i
  proof -
    from that have i: "0 \<le> i" "i < n" by (simp_all add: in_py_range)
    with cover obtain c where c: "c \<in> set frs" "chunk_index c = i" and pi: "payload i \<noteq> []"
      by blast
    from c grp sets have "Chunk c \<in> set ?xs" "snapshot_id c = g" by auto
    then have "chunks_of g ?xs (chunk_index c) \<noteq> None" by (rule chunks_of_recorded)
    then obtain d where d: "chunks_of g ?xs i = Some d" using c(2) by auto
    from chunks_of_SomeD[OF d] obtain c' where "Chunk c' \<in> set ?xs" "chunk_index c' = i"
      "chunk_data c' = d" by blast
    with grp sets have "d = payload i" by auto
    with d pi show ?thesis by simp
  qed
  have "join_chunks (chunks_of g ?xs) (py_range n) [] = Some ([] @ concat (map payload (py_range n)))"
    using rec by (rule join_chunks_all)
  then show ?thesis
    unfolding merge_snapshot_chunks_entries L
    by (simp add: c0 split: option.splits)
qed

text \<open>The example of the specification, with digits for letters: arrival order 2, 0, 1.\<close>

theorem merge_chunk_order_independent_witness:
  "merge_snapshot_chunks loads_nat 7 ''s1''
     (map Chunk
       [\<lparr>snapshot_id = ''g'', chunk_index = 2, chunk_count = 3, chunk_data = ''3''\<rparr>,
        \<lparr>snapshot_id = ''g'', chunk_index = 0, chunk_count = 3, chunk_data = ''1''\<rparr>,
        \<lparr>snapshot_id = ''g'', chunk_index = 1, chunk_count = 3, chunk_data = ''2''\<rparr>])
   = \<lparr>captured = [], returned = Inr [123]\<rparr>"
  using merge_chunk_order_independent
    [of "[\<lparr>snapshot_id = ''g'', chunk_index = 2, chunk_count = 3, chunk_data = ''3''\<rparr>,
        \<lparr>snapshot_id = ''g'', chunk_index = 0, chunk_count = 3, chunk_data = ''1''\<rparr>,
        \<lparr>snapshot_id = ''g'', chunk_index = 1, chunk_count = 3, chunk_data = ''2''\<rparr>]"
        "[\<lparr>snapshot_id = ''g'', chunk_index = 0, chunk_count = 3, chunk_data = ''1''\<rparr>,
        \<lparr>snapshot_id = ''g'', chunk_index = 1, chunk_count = 3, chunk_data = ''2''\<rparr>,
        \<lparr>snapshot_id = ''g'', chunk_index = 2, chunk_count = 3, chunk_data = ''3''\<rparr>]"
        "''g''" 3 "\<lambda>i. if i = 0 then ''1'' else if i = 1 then ''2'' else ''3''"
        loads_nat 7 "''s1''"]
  by (simp add: loads_nat_def py_range_def upto.simps)

subsection \<open>C6: a group short of its declared count is dropped\<close>

text \<open>
  C6, as stated, fails: the source does not catch the exception of \<open>json.loads\<close>, so
  a complete group that fails to decode ends the call. Below, the group \<open>g\<close> is short
  of its declared count when the stream ends; the group \<open>b\<close> before it is complete and
  is not a JSON document; no diagnostic is captured for \<open>g\<close> and the full snapshot
  \<open>5\<close> of the same stream is not returned.
\<close>

theorem merge_incomplete_group_abort_counterexample:
  "merge_snapshot_chunks loads_nat 7 ''s1''
      [Chunk \<lparr>snapshot_id = ''b'', chunk_index = 0, chunk_count = 1, chunk_data = ''x''\<rparr>,
       Chunk \<lparr>snapshot_id = ''g'', chunk_index = 0, chunk_count = 2, chunk_data = ''1''\<rparr>,
       Snapshot 5]
     = \<lparr>captured = [], returned = Inl JSONDecodeError\<rparr>"
  by (simp add: merge_snapshot_chunks_def loads_nat_def py_range_def upto.simps)

text \<open>
  C6, amended. Let a chunk group first appear in the stream after the prefix \<open>pre\<close>, and
  let its collector, when the stream ends, have no chunk at some index below its declared
  count. Then \<open>merge_snapshot_chunks\<close> emits no payload for that group and the group
  does not end the call: what the call returns, or raises, is the concatenation in the
  order of first appearance of what the other units of the stream contribute. When the
  call returns, the returned list holds every full snapshot of the stream and the decoded
  payload of every complete group. The diagnostic for the group is captured exactly when
  no complete group that fails to decode first appears before the group: then one
  diagnostic is captured on top of those of the stream without the group; otherwise none
  is, and the call raises. A collector that holds fewer indices than its declared count
  lacks such an index (\<open>collector_short_of_count\<close>).
\<close>

theorem merge_incomplete_group_dropped:
  assumes "xs = pre @ Chunk event # post" and "snapshot_id event \<notin> group_ids pre"
    and "Collector event n chunks \<in> set (snd (collect_loop (Map.empty, []) xs))"
    and "0 \<le> i" and "i < n" and "chunks i = None"
  shows "returned (merge_snapshot_chunks loads team_pk session_id xs)
           = first_appearance_output loads (without_group (snapshot_id event) xs)
       \<and> (\<forall>out. returned (merge_snapshot_chunks loads team_pk session_id xs) = Inr out \<longrightarrow>
             (\<forall>p. Snapshot p \<in> set xs \<longrightarrow> p \<in> set out)
             \<and> (\<forall>c data v. first_fragment (snapshot_id c) xs = Some c
                    \<and> join_chunks (chunks_of (snapshot_id c) xs) (py_range (chunk_count c)) []
                        = Some data
                    \<and> loads data = Some v \<longrightarrow> v \<in> set out))
       \<and> captured (merge_snapshot_chunks loads team_pk session_id xs)
           = (if decoded_before loads xs pre
              then missing_chunks_message team_pk session_id
                   # captured (merge_snapshot_chunks loads team_pk session_id
                                (without_group (snapshot_id event) xs))
              else captured (merge_snapshot_chunks loads team_pk session_id
                               (without_group (snapshot_id event) xs)))
       \<and> (\<not> decoded_before loads xs pre \<longrightarrow>
             returned (merge_snapshot_chunks loads team_pk session_id xs) = Inl JSONDecodeError)"
proof -
  from collector_of_stream[OF assms(3)]
  have lead: "Chunk event \<in> set (first_appearances {} xs)" and n: "n = chunk_count event"
    and ch: "chunks = chunks_of (snapshot_id event) xs" by simp_all
  have "join_chunks chunks (py_range n) [] = None"
    using assms(4-6) by (intro join_chunks_missing[of i]) (simp_all add: in_py_range)
  then have inc: "join_chunks (chunks_of (snapshot_id event) xs) (py_range (chunk_count event)) [] = None"
    by (simp add: n ch)
  show ?thesis
    using incomplete_group_output[OF lead inc, of loads team_pk session_id]
      incomplete_group_reported[OF assms(1,2) inc, of loads team_pk session_id]
      undecoded_before_raises[OF assms(1), of loads team_pk session_id]
      returned_emits[of loads team_pk session_id xs]
    by blast
qed

text \<open>
  The example of the specification after a complete group: three chunks declared, indices
  0 and 1 arrive; the group before and the full snapshot of the same stream are returned
  and one diagnostic is captured.
\<close>

theorem merge_incomplete_group_dropped_witness:
  "snd (collect_loop (Map.empty, [])
      [Chunk \<lparr>snapshot_id = ''h'', chunk_index = 0, chunk_count = 1, chunk_data = ''9''\<rparr>,
       Chunk \<lparr>snapshot_id = ''g'', chunk_index = 0, chunk_count = 3, chunk_data = ''1''\<rparr>,
       Snapshot (5::nat),
       Chunk \<lparr>snapshot_id = ''g'', chunk_index = 1, chunk_count = 3, chunk_data = ''2''\<rparr>])
     = [Collector \<lparr>snapshot_id = ''h'', chunk_index = 0, chunk_count = 1, chunk_data = ''9''\<rparr> 1
          [0 \<mapsto> ''9''],
        Collector \<lparr>snapshot_id = ''g'', chunk_index = 0, chunk_count = 3, chunk_data = ''1''\<rparr> 3
          [0 \<mapsto> ''1'', 1 \<mapsto> ''2''],
        SnapshotData 5]
   \<and> merge_snapshot_chunks loads_nat 7 ''s1''
      [Chunk \<lparr>snapshot_id = ''h'', chunk_index = 0, chunk_count = 1, chunk_data = ''9''\<rparr>,
       Chunk \<lparr>snapshot_id = ''g'', chunk_index = 0, chunk_count = 3, chunk_data = ''1''\<rparr>,
       Snapshot 5,
       Chunk \<lparr>snapshot_id = ''g'', chunk_index = 1, chunk_count = 3, chunk_data = ''2''\<rparr>]
     = \<lparr>captured = [missing_chunks_message 7 ''s1''], returned = Inr [9, 5]\<rparr>"
proof -
  let ?h0 = "\<lparr>snapshot_id = ''h'', chunk_index = 0, chunk_count = 1, chunk_data = ''9''\<rparr>"
  let ?g0 = "\<lparr>snapshot_id = ''g'', chunk_index = 0, chunk_count = 3, chunk_data = ''1''\<rparr>"
  let ?g1 = "\<lparr>snapshot_id = ''g'', chunk_index = 1, chunk_count = 3, chunk_data = ''2''\<rparr>"
  let ?pre = "[Chunk ?h0] :: nat chunk_or_snapshot list"
  let ?post = "[Snapshot 5, Chunk ?g1] :: nat chunk_or_snapshot list"
  let ?xs = "[Chunk ?h0, Chunk ?g0, Snapshot 5, Chunk ?g1] :: nat chunk_or_snapshot list"
  let ?ch = "[0 \<mapsto> ''1'', 1 \<mapsto> ''2''] :: int \<rightharpoonup> string"
  have split: "?xs = ?pre @ Chunk ?g0 # ?post" by simp
  have fresh: "snapshot_id ?g0 \<notin> group_ids ?pre" by simp
  have entries: "snd (collect_loop (Map.empty, []) ?xs)
      = [Collector ?h0 1 [0 \<mapsto> ''9''], Collector ?g0 3 ?ch, SnapshotData 5]"
    by simp
  then have mem: "Collector ?g0 3 ?ch \<in> set (snd (collect_loop (Map.empty, []) ?xs))"
    by simp
  have missing: "?ch 2 = None" by simp
  have others: "first_appearance_output loads_nat (without_group (snapshot_id ?g0) ?xs) = Inr [9, 5]"
    by (simp add: first_appearance_output_def without_group_def loads_nat_def py_range_def
        upto.simps)
  have reached: "decoded_before loads_nat ?xs ?pre"
    by (simp add: decoded_before_def loads_nat_def py_range_def upto.simps)
  have rest: "captured (merge_snapshot_chunks loads_nat 7 ''s1'' (without_group (snapshot_id ?g0) ?xs))
      = []"
    by (simp add: merge_snapshot_chunks_def without_group_def loads_nat_def py_range_def
        upto.simps)
  note inst = merge_incomplete_group_dropped[OF split fresh mem _ _ missing, of loads_nat 7 "''s1''"]
  have "returned (merge_snapshot_chunks loads_nat 7 ''s1'' ?xs) = Inr [9, 5]"
    and "captured (merge_snapshot_chunks loads_nat 7 ''s1'' ?xs) = [missing_chunks_message 7 ''s1'']"
    using inst others reached rest by simp_all
  then have "merge_snapshot_chunks loads_nat 7 ''s1'' ?xs
      = \<lparr>captured = [missing_chunks_message 7 ''s1''], returned = Inr [9, 5]\<rparr>"
    by (cases "merge_snapshot_chunks loads_nat 7 ''s1'' ?xs") simp
  with entries show ?thesis by simp
qed

subsection \<open>C9: an empty chunk makes its group incomplete\<close>

text \<open>
  C9, as stated, fails for the diagnostic: when a complete group that fails to decode
  stands before the group in the stream, the uncaught exception of \<open>json.loads\<close> ends
  the call before the group is looked at. Below, the collector of \<open>g\<close> holds the empty
  string at its only index, and no diagnostic is captured.
\<close>

theorem merge_empty_chunk_abort_counterexample:
  "snd (collect_loop (Map.empty, [])
      [Chunk \<lparr>snapshot_id = ''b'', chunk_index = 0, chunk_count = 1, chunk_data = ''x''\<rparr>,
       Chunk \<lparr>snapshot_id = ''g'', chunk_index = 0, chunk_count = 1, chunk_data = ''''\<rparr>
         :: nat chunk_or_snapshot])
     = [Collector \<lparr>snapshot_id = ''b'', chunk_index = 0, chunk_count = 1, chunk_data = ''x''\<rparr> 1
          [0 \<mapsto> ''x''],
        Collector \<lparr>snapshot_id = ''g'', chunk_index = 0, chunk_count = 1, chunk_data = ''''\<rparr> 1
          [0 \<mapsto> '''']]
   \<and> merge_snapshot_chunks loads_nat 7 ''s1''
      [Chunk \<lparr>snapshot_id = ''b'', chunk_index = 0, chunk_count = 1, chunk_data = ''x''\<rparr>,
       Chunk \<lparr>snapshot_id = ''g'', chunk_index = 0, chunk_count = 1, chunk_data = ''''\<rparr>]
     = \<lparr>captured = [], returned = Inl JSONDecodeError\<rparr>"
  by (simp add: merge_snapshot_chunks_def loads_nat_def py_range_def upto.simps)

text \<open>
  C9, amended. Let a chunk group first appear in the stream after the prefix \<open>pre\<close>, and
  let its collector, when the stream ends, hold the empty string at some index below the
  declared count. Then the completeness test of \<open>merge_snapshot_chunks\<close> fails, also
  when every index below the count was recorded, and no payload is emitted for the group:
  what the call returns, or raises, is what the other units of the stream contribute. The
  diagnostic for incomplete chunks is captured for the group exactly when no complete
  group that fails to decode first appears before the group: then one diagnostic is
  captured on top of those of the stream without the group; otherwise none is, and the
  call raises.
\<close>

theorem merge_empty_chunk_incomplete:
  assumes "xs = pre @ Chunk event # post" and "snapshot_id event \<notin> group_ids pre"
    and "Collector event n chunks \<in> set (snd (collect_loop (Map.empty, []) xs))"
    and "0 \<le> i" and "i < n" and "chunks i = Some []"
  shows "join_chunks chunks (py_range n) [] = None
       \<and> returned (merge_snapshot_chunks loads team_pk session_id xs)
           = first_appearance_output loads (without_group (snapshot_id event) xs)
       \<and> captured (merge_snapshot_chunks loads team_pk session_id xs)
           = (if decoded_before loads xs pre
              then missing_chunks_message team_pk session_id
                   # captured (merge_snapshot_chunks loads team_pk session_id
                                (without_group (snapshot_id event) xs))
              else captured (merge_snapshot_chunks loads team_pk session_id
                               (without_group (snapshot_id event) xs)))
       \<and> (\<not> decoded_before loads xs pre \<longrightarrow>
             returned (merge_snapshot_chunks loads team_pk session_id xs) = Inl JSONDecodeError)"
proof -
  from collector_of_stream[OF assms(3)]
  have lead: "Chunk event \<in> set (first_appearances {} xs)" and n: "n = chunk_count event"
    and ch: "chunks = chunks_of (snapshot_id event) xs" by simp_all
  have test: "join_chunks chunks (py_range n) [] = None"
    using assms(4-6) by (intro join_chunks_missing[of i]) (simp_all add: in_py_range)
  then have inc: "join_chunks (chunks_of (snapshot_id event) xs) (py_range (chunk_count event)) [] = None"
    by (simp add: n ch)
  show ?thesis
    using test incomplete_group_output[OF lead inc, of loads team_pk session_id]
      incomplete_group_reported[OF assms(1,2) inc, of loads team_pk session_id]
      undecoded_before_raises[OF assms(1), of loads team_pk session_id]
    by blast
qed

text \<open>
  Both indices of the group are recorded, the second with the empty string; the
  diagnostic is captured although a group after it fails to decode and ends the call.
\<close>

theorem merge_empty_chunk_incomplete_witness:
  "snd (collect_loop (Map.empty, [])
      [Chunk \<lparr>snapshot_id = ''g'', chunk_index = 0, chunk_count = 2, chunk_data = ''1''\<rparr>,
       Chunk \<lparr>snapshot_id = ''g'', chunk_index = 1, chunk_count = 2, chunk_data = ''''\<rparr>,
       Chunk \<lparr>snapshot_id = ''b'', chunk_index = 0, chunk_count = 1, chunk_data = ''x''\<rparr>
         :: nat chunk_or_snapshot])
     = [Collector \<lparr>snapshot_id = ''g'', chunk_index = 0, chunk_count = 2, chunk_data = ''1''\<rparr> 2
          [0 \<mapsto> ''1'', 1 \<mapsto> ''''],
        Collector \<lparr>snapshot_id = ''b'', chunk_index = 0, chunk_count = 1, chunk_data = ''x''\<rparr> 1
          [0 \<mapsto> ''x'']]
   \<and> merge_snapshot_chunks loads_nat 7 ''s1''
      [Chunk \<lparr>snapshot_id = ''g'', chunk_index = 0, chunk_count = 2, chunk_data = ''1''\<rparr>,
       Chunk \<lparr>snapshot_id = ''g'', chunk_index = 1, chunk_count = 2, chunk_data = ''''\<rparr>,
       Chunk \<lparr>snapshot_id = ''b'', chunk_index = 0, chunk_count = 1, chunk_data = ''x''\<rparr>]
     = \<lparr>captured = [missing_chunks_message 7 ''s1''], returned = Inl JSONDecodeError\<rparr>"
proof -
  let ?g0 = "\<lparr>snapshot_id = ''g'', chunk_index = 0, chunk_count = 2, chunk_data = ''1''\<rparr>"
  let ?g1 = "\<lparr>snapshot_id = ''g'', chunk_index = 1, chunk_count = 2, chunk_data = ''''\<rparr>"
  let ?b0 = "\<lparr>snapshot_id = ''b'', chunk_index = 0, chunk_count = 1, chunk_data = ''x''\<rparr>"
  let ?pre = "[] :: nat chunk_or_snapshot list"
  let ?post = "[Chunk ?g1, Chunk ?b0] :: nat chunk_or_snapshot list"
  let ?xs = "[Chunk ?g0, Chunk ?g1, Chunk ?b0] :: nat chunk_or_snapshot list"
  let ?ch = "[0 \<mapsto> ''1'', 1 \<mapsto> ''''] :: int \<rightharpoonup> string"
  have split: "?xs = ?pre @ Chunk ?g0 # ?post" by simp
  have fresh: "snapshot_id ?g0 \<notin> group_ids ?pre" by simp
  have entries: "snd (collect_loop (Map.empty, []) ?xs)
      = [Collector ?g0 2 ?ch, Collector ?b0 1 [0 \<mapsto> ''x'']]"
    by simp
  then have mem: "Collector ?g0 2 ?ch \<in> set (snd (collect_loop (Map.empty, []) ?xs))"
    by simp
  have empty: "?ch 1 = Some []" by simp
  have others: "first_appearance_output loads_nat (without_group (snapshot_id ?g0) ?xs)
      = Inl JSONDecodeError"
    by (simp add: first_appearance_output_def without_group_def loads_nat_def py_range_def
        upto.simps)
  have reached: "decoded_before loads_nat ?xs ?pre"
    by (simp add: decoded_before_def)
  have rest: "captured (merge_snapshot_chunks loads_nat 7 ''s1'' (without_group (snapshot_id ?g0) ?xs))
      = []"
    by (simp add: merge_snapshot_chunks_def without_group_def loads_nat_def py_range_def
        upto.simps)
  note inst = merge_empty_chunk_incomplete[OF split fresh mem _ _ empty, of loads_nat 7 "''s1''"]
  have "returned (merge_snapshot_chunks loads_nat 7 ''s1'' ?xs) = Inl JSONDecodeError"
    and "captured (merge_snapshot_chunks loads_nat 7 ''s1'' ?xs) = [missing_chunks_message 7 ''s1'']"
    using inst others reached rest by simp_all
  then have "merge_snapshot_chunks loads_nat 7 ''s1'' ?xs
      = \<lparr>captured = [missing_chunks_message 7 ''s1''], returned = Inl JSONDecodeError\<rparr>"
    by (cases "merge_snapshot_chunks loads_nat 7 ''s1'' ?xs") simp
  with entries show ?thesis by simp
qed

subsection \<open>C4: the matching rule and the recordings collected\<close>

text \<open>
  C4. For every session and every recording candidate, \<open>matches\<close> is true exactly
  when the two distinct ids are equal, the closed intervals overlap (the session starts
  no later than the candidate ends and ends no earlier than the candidate starts) and,
  when the unseen-only filter is active, the candidate's session id is not in the viewed
  set; \<open>collect_matching_recordings\<close> yields exactly the candidates for which
  \<open>matches\<close> is true, in their order, each with its id and its viewed flag.
\<close>

theorem matches_iff_and_collected:
  "(matches s r f viewed \<longleftrightarrow>
      distinct_id s = rec_distinct_id r
      \<and> start_time s \<le> rec_end_time r \<and> end_time s \<ge> rec_start_time r
      \<and> (recording_unseen_filter f \<longrightarrow> rec_session_id r \<notin> viewed))
   \<and> collect_matching_recordings s rs f viewed =
       map (\<lambda>r. \<lparr>cr_id = rec_session_id r, cr_viewed = (rec_session_id r \<in> viewed)\<rparr>)
         (filter (\<lambda>r. matches s r f viewed) rs)"
proof
  show "matches s r f viewed \<longleftrightarrow>
      distinct_id s = rec_distinct_id r
      \<and> start_time s \<le> rec_end_time r \<and> end_time s \<ge> rec_start_time r
      \<and> (recording_unseen_filter f \<longrightarrow> rec_session_id r \<notin> viewed)"
    unfolding matches_def by blast
  show "collect_matching_recordings s rs f viewed =
       map (\<lambda>r. \<lparr>cr_id = rec_session_id r, cr_viewed = (rec_session_id r \<in> viewed)\<rparr>)
         (filter (\<lambda>r. matches s r f viewed) rs)"
    by (induction rs) simp_all
qed

text \<open>
  The examples of the specification: a session of \<open>u1\<close> over \<open>[10, 20]\<close> against
  the candidates \<open>r1\<close> (\<open>u1\<close>, \<open>[15, 25]\<close>, viewed), \<open>r2\<close> (\<open>u1\<close>,
  \<open>[15, 25]\<close>), \<open>r3\<close> (\<open>u1\<close>, \<open>[21, 30]\<close>) and \<open>r4\<close> (\<open>u2\<close>,
  \<open>[10, 20]\<close>), with the unseen-only filter active.
\<close>

theorem matches_iff_and_collected_witness:
  "collect_matching_recordings
     \<lparr>distinct_id = ''u1'', start_time = 10, end_time = 20\<rparr>
     [\<lparr>rec_session_id = ''r1'', rec_distinct_id = ''u1'', rec_start_time = 15, rec_end_time = 25\<rparr>,
      \<lparr>rec_session_id = ''r2'', rec_distinct_id = ''u1'', rec_start_time = 15, rec_end_time = 25\<rparr>,
      \<lparr>rec_session_id = ''r3'', rec_distinct_id = ''u1'', rec_start_time = 21, rec_end_time = 30\<rparr>,
      \<lparr>rec_session_id = ''r4'', rec_distinct_id = ''u2'', rec_start_time = 10, rec_end_time = 20\<rparr>]
     \<lparr>recording_unseen_filter = True\<rparr> {''r1''}
   = [\<lparr>cr_id = ''r2'', cr_viewed = False\<rparr>]
   \<and> matches \<lparr>distinct_id = ''u1'', start_time = 10, end_time = 20\<rparr>
       \<lparr>rec_session_id = ''r2'', rec_distinct_id = ''u1'', rec_start_time = 15, rec_end_time = 25\<rparr>
       \<lparr>recording_unseen_filter = True\<rparr> {''r1''}"
  using matches_iff_and_collected
    [of "\<lparr>distinct_id = ''u1'', start_time = 10, end_time = 20\<rparr>"
        "\<lparr>rec_session_id = ''r2'', rec_distinct_id = ''u1'', rec_start_time = 15, rec_end_time = 25\<rparr>"
        "\<lparr>recording_unseen_filter = True\<rparr>" "{''r1''}"
        "[\<lparr>rec_session_id = ''r1'', rec_distinct_id = ''u1'', rec_start_time = 15, rec_end_time = 25\<rparr>,
      \<lparr>rec_session_id = ''r2'', rec_distinct_id = ''u1'', rec_start_time = 15, rec_end_time = 25\<rparr>,
      \<lparr>rec_session_id = ''r3'', rec_distinct_id = ''u1'', rec_start_time = 21, rec_end_time = 30\<rparr>,
      \<lparr>rec_session_id = ''r4'', rec_distinct_id = ''u2'', rec_start_time = 10, rec_end_time = 20\<rparr>]"]
  by (simp add: matches_def)

subsection \<open>C8: an unsupported period is rejected before any query\<close>

text \<open>
  C8. For every period unit outside Hour, Day, Week and Month, \<open>determineTimedelta\<close>
  raises the \<open>ValueError\<close> that names the period, and \<open>calculate_retention\<close>, called
  with a filter whose period (\<open>filter.period or "Day"\<close>) is that unit, fails with this
  error before anything else is done: no query is issued, the filter is left as it was,
  and no rows are returned.
\<close>

theorem unsupported_period_rejected:
  assumes "p \<notin> {''Hour'', ''Day'', ''Week'', ''Month''}"
  shows "determineTimedelta total_intervals p
           = Inl (ValueError (''Period '' @ p @ '' is unsupported.''))
       \<and> (resolved_period flt = p \<longrightarrow>
            calculate_retention env flt tm total_intervals
              = \<lparr>filter_after = flt, issued = [],
                 outcome_value = Inl (ValueError (''Period '' @ p @ '' is unsupported.''))\<rparr>)"
proof -
  from assms have dt: "determineTimedelta total_intervals p
           = Inl (ValueError (''Period '' @ p @ '' is unsupported.''))"
    by (simp add: determineTimedelta_def)
  then show ?thesis
    by (auto simp: calculate_retention_def Let_def)
qed

theorem unsupported_period_rejected_witness:
  "calculate_retention (example_env []) (example_filter ''Year'' ''retention_recurring'')
     \<lparr>pk = 1\<rparr> 11
   = \<lparr>filter_after = example_filter ''Year'' ''retention_recurring'', issued = [],
      outcome_value = Inl (ValueError ''Period Year is unsupported.'')\<rparr>"
  using unsupported_period_rejected[of "''Year''" 11 "example_filter ''Year'' ''retention_recurring''"
      "example_env []" "\<lparr>pk = 1\<rparr>"]
  by (simp add: resolved_period_def example_filter_def)

subsection \<open>C5: the default anchor of a period other than Hour\<close>

text \<open>
  C5, as stated, fails: before the anchor is resolved, line 31 assigns to
  \<open>filter._date_to\<close> the clock plus one period, and line 37 reads \<open>filter.date_to\<close>
  again. Below, the filter supplies no \<open>date_to\<close> and its property \<open>date_to\<close> returns
  what \<open>_date_to\<close> holds; the period is Day and the clock reads 10 March 2021. The
  anchor is midnight of 11 March, not the current time truncated to midnight.
\<close>

theorem default_anchor_read_back_counterexample:
  "date_to_of (example_env_stored []) (example_filter ''Day'' ''retention_recurring'') = None
   \<and> stored_date_to (filter_after (calculate_retention (example_env_stored [])
       (example_filter ''Day'' ''retention_recurring'') \<lparr>pk = 1\<rparr> 11))
     = Some \<lparr>ordinal = 737860, hour = 0, minute = 0, second = 0, microsecond = 0\<rparr>
   \<and> (now (example_env_stored []) 1)\<lparr>hour := 0, minute := 0, second := 0, microsecond := 0\<rparr>
     = \<lparr>ordinal = 737859, hour = 0, minute = 0, second = 0, microsecond = 0\<rparr>"
proof -
  let ?env = "example_env_stored []"
  let ?flt = "example_filter ''Day'' ''retention_recurring''"
  have clock: "now ?env k = example_now" and readback: "date_to_of ?env = stored_date_to" for k
    by (simp_all add: example_env_stored_def example_env_def)
  have plus: "dt_plus ?env example_now (timedelta_days 1)
      = \<lparr>ordinal = 737860, hour = 15, minute = 30, second = 12, microsecond = 250\<rparr>"
    by (simp add: timedelta_days_def to_microseconds_def of_microseconds_def us_per_day_def
        example_now_def)
  have minus: "dt_minus ?env \<lparr>ordinal = 737860, hour = 0, minute = 0, second = 0, microsecond = 0\<rparr>
        (timedelta_days 11)
      = \<lparr>ordinal = 737849, hour = 0, minute = 0, second = 0, microsecond = 0\<rparr>"
    by (simp add: timedelta_days_def to_microseconds_def of_microseconds_def us_per_day_def)
  have rr: "resolve_range ?env ?flt ''Day'' (timedelta_days 11) (timedelta_days 1)
      = (?flt\<lparr>stored_date_from := Some \<lparr>ordinal = 737849, hour = 0, minute = 0, second = 0,
                                         microsecond = 0\<rparr>,
               stored_date_to := Some \<lparr>ordinal = 737860, hour = 0, minute = 0, second = 0,
                                       microsecond = 0\<rparr>\<rparr>,
         \<lparr>ordinal = 737849, hour = 0, minute = 0, second = 0, microsecond = 0\<rparr>,
         \<lparr>ordinal = 737860, hour = 0, minute = 0, second = 0, microsecond = 0\<rparr>)"
    unfolding resolve_range_def Let_def readback clock
    by (simp add: example_filter_def plus minus replace_midnight_def)
  have p: "resolved_period ?flt = ''Day''"
    by (simp add: resolved_period_def example_filter_def)
  have dt: "determineTimedelta 11 ''Day'' = Inr (timedelta_days 11, PERIOD_TRUNC_DAY, timedelta_days 1)"
    by (simp add: determineTimedelta_def)
  have "stored_date_to (filter_after (calculate_retention ?env ?flt \<lparr>pk = 1\<rparr> 11))
     = Some \<lparr>ordinal = 737860, hour = 0, minute = 0, second = 0, microsecond = 0\<rparr>"
    unfolding calculate_retention_def Let_def p dt
    by (simp add: rr split: sum.splits)
  then show ?thesis
    by (simp add: readback clock example_filter_def example_now_def)
qed

text \<open>
  C5, amended. Let the period be a unit other than Hour for which \<open>determineTimedelta\<close>
  returns the span \<open>step\<close> and the single period \<open>t1\<close>, and let the filter supply no
  \<open>date_to\<close>. Then \<open>calculate_retention\<close> resolves \<open>date_to\<close> to what \<open>filter.date_to\<close>
  returns once line 31 has assigned the current time plus \<open>t1\<close> to \<open>filter._date_to\<close>
  (the current time when it still returns nothing), with hour, minute, second and
  microsecond set to zero, and \<open>date_from\<close> to \<open>date_to - step\<close>; these are the dates
  assigned to the filter and the date parameters of every query issued. So the anchor
  is midnight of the current time plus one period for a filter that returns the assigned
  date, and midnight of the current time for a filter that still returns nothing. The
  span and the dates computed are taken within the bounds of \<open>timedelta\<close> and
  \<open>datetime\<close>, outside of which the call raises \<open>OverflowError\<close>.
\<close>

theorem calculate_retention_default_anchor:
  assumes "resolved_period flt \<noteq> ''Hour''"
    and "determineTimedelta total_intervals (resolved_period flt) = Inr (step, trunc, t1)"
    and "date_to_of env flt = None"
    and "shifted = dt_plus env (now env 0) t1"
    and "reread = (case date_to_of env (flt\<lparr>stored_date_to := Some shifted\<rparr>) of
                     Some d \<Rightarrow> d | None \<Rightarrow> now env 1)"
    and "date_to = reread\<lparr>hour := 0, minute := 0, second := 0, microsecond := 0\<rparr>"
    and "date_from = dt_minus env date_to step"
    and "delta_in_range step" and "datetime_in_range shifted" and "datetime_in_range date_from"
  shows "stored_date_to (filter_after (calculate_retention env flt tm total_intervals)) = Some date_to
       \<and> stored_date_from (filter_after (calculate_retention env flt tm total_intervals))
            = Some date_from
       \<and> (\<forall>q \<in> set (issued (calculate_retention env flt tm total_intervals)).
             q_end_date q = date_to \<and> q_start_date q = replace_midnight date_from)
       \<and> (date_to_of env (flt\<lparr>stored_date_to := Some shifted\<rparr>) = Some shifted \<longrightarrow>
             date_to = (dt_plus env (now env 0) t1)
                         \<lparr>hour := 0, minute := 0, second := 0, microsecond := 0\<rparr>)
       \<and> (date_to_of env (flt\<lparr>stored_date_to := Some shifted\<rparr>) = None \<longrightarrow>
             date_to = (now env 1)\<lparr>hour := 0, minute := 0, second := 0, microsecond := 0\<rparr>)"
proof -
  have rr: "resolve_range env flt (resolved_period flt) step t1 =
      (flt\<lparr>stored_date_to := Some shifted\<rparr>
          \<lparr>stored_date_from := Some date_from, stored_date_to := Some date_to\<rparr>,
       date_from, date_to)"
    using assms(1,3)
    by (simp add: resolve_range_def Let_def replace_midnight_def assms(4-7) split: option.splits)
  have raw: "period flt \<noteq> Some ''Hour''"
    using assms(1) by (auto simp: resolved_period_def)
  have fmt: "strftime_param (f\<lparr>stored_date_from := a, stored_date_to := b\<rparr>) d = replace_midnight d"
    if "period f = period flt" for f a b d
    using raw that by (simp add: strftime_param_def)
  have mid: "replace_midnight date_to = date_to"
    unfolding assms(6) by (simp add: replace_midnight_def)
  have dates: "stored_date_to (filter_after (calculate_retention env flt tm total_intervals)) = Some date_to
       \<and> stored_date_from (filter_after (calculate_retention env flt tm total_intervals))
            = Some date_from
       \<and> (\<forall>q \<in> set (issued (calculate_retention env flt tm total_intervals)).
             q_end_date q = date_to \<and> q_start_date q = replace_midnight date_from)"
    unfolding calculate_retention_def
    by (simp add: Let_def assms(2) rr retention_query_def fmt mid split: sum.splits prod.splits)
  have stored: "date_to_of env (flt\<lparr>stored_date_to := Some shifted\<rparr>) = Some shifted \<longrightarrow>
             date_to = (dt_plus env (now env 0) t1)
                         \<lparr>hour := 0, minute := 0, second := 0, microsecond := 0\<rparr>"
    unfolding assms(6) assms(5) by (simp add: assms(4))
  have empty: "date_to_of env (flt\<lparr>stored_date_to := Some shifted\<rparr>) = None \<longrightarrow>
             date_to = (now env 1)\<lparr>hour := 0, minute := 0, second := 0, microsecond := 0\<rparr>"
    unfolding assms(6) assms(5) by simp
  from dates stored empty show ?thesis by blast
qed

text \<open>
  The filter that returns the assigned date: the anchor is midnight of 11 March 2021, and
  \<open>date_from\<close> eleven days before it.
\<close>

theorem calculate_retention_default_anchor_witness:
  "stored_date_to (filter_after (calculate_retention (example_env_stored [])
       (example_filter ''Day'' ''retention_recurring'') \<lparr>pk = 1\<rparr> 11))
     = Some \<lparr>ordinal = 737860, hour = 0, minute = 0, second = 0, microsecond = 0\<rparr>
   \<and> stored_date_from (filter_after (calculate_retention (example_env_stored [])
       (example_filter ''Day'' ''retention_recurring'') \<lparr>pk = 1\<rparr> 11))
     = Some \<lparr>ordinal = 737849, hour = 0, minute = 0, second = 0, microsecond = 0\<rparr>"
proof -
  let ?env = "example_env_stored []"
  let ?flt = "example_filter ''Day'' ''retention_recurring''"
  let ?shifted = "\<lparr>ordinal = 737860, hour = 15, minute = 30, second = 12, microsecond = 250\<rparr>"
  let ?to = "\<lparr>ordinal = 737860, hour = 0, minute = 0, second = 0, microsecond = 0\<rparr>"
  let ?from = "\<lparr>ordinal = 737849, hour = 0, minute = 0, second = 0, microsecond = 0\<rparr>"
  have clock: "now ?env k = example_now" and readback: "date_to_of ?env = stored_date_to" for k
    by (simp_all add: example_env_stored_def example_env_def)
  have p: "resolved_period ?flt \<noteq> ''Hour''"
    by (simp add: resolved_period_def example_filter_def)
  have dt: "determineTimedelta 11 (resolved_period ?flt)
      = Inr (timedelta_days 11, PERIOD_TRUNC_DAY, timedelta_days 1)"
    by (simp add: resolved_period_def example_filter_def determineTimedelta_def)
  have r1: "date_to_of ?env ?flt = None"
    by (simp add: readback example_filter_def)
  have sh: "?shifted = dt_plus ?env (now ?env 0) (timedelta_days 1)"
    by (simp add: clock timedelta_days_def to_microseconds_def of_microseconds_def us_per_day_def
        example_now_def)
  have rd: "?shifted = (case date_to_of ?env (?flt\<lparr>stored_date_to := Some ?shifted\<rparr>) of
                     Some d \<Rightarrow> d | None \<Rightarrow> now ?env 1)"
    by (simp add: readback)
  have a: "?to = ?shifted\<lparr>hour := 0, minute := 0, second := 0, microsecond := 0\<rparr>"
    by simp
  have b: "?from = dt_minus ?env ?to (timedelta_days 11)"
    by (simp add: timedelta_days_def to_microseconds_def of_microseconds_def us_per_day_def)
  have r: "delta_in_range (timedelta_days 11)" "datetime_in_range ?shifted" "datetime_in_range ?from"
    by (simp_all add: timedelta_days_def datetime_in_range_def us_per_day_def)
  from calculate_retention_default_anchor[OF p dt r1 sh rd a b r, of "\<lparr>pk = 1\<rparr>"] show ?thesis by simp
qed

subsection \<open>C2: the shape and the cells of the matrix\<close>

text \<open>
  C2, as stated, fails: the cells of the row of start bucket \<open>i\<close> do not carry the
  counts of the pairs \<open>(i, seen_bucket)\<close> for \<open>seen_bucket\<close> from \<open>i\<close> on. Below,
  with two intervals, the query results hold the pair \<open>(1, 1)\<close> with count \<open>5\<close> and
  the pair \<open>(1, 0)\<close> with count \<open>3\<close>; the one cell of row \<open>1\<close> carries \<open>3\<close>.
\<close>

theorem matrix_absolute_bucket_counterexample:
  "map_sum id (map (map cell_count \<circ> row_values))
     (outcome_value (calculate_retention (example_env [(1, 1, 5), (1, 0, 3)])
        (example_filter ''Day'' ''retention_recurring'') \<lparr>pk = 1\<rparr> 2))
   = Inr [[0, 0], [3]]
   \<and> last_count [(1, 1, 5), (1, 0, 3)] (1, 1) = Some 5"
  by (simp add: calculate_retention_def example_env_def example_filter_def resolved_period_def
      determineTimedelta_def resolve_range_def get_event_filter_def get_condition_def
      pageview_entity_def retention_query_def parse_result_def py_range_def upto.simps
      get_cell_def RETENTION_FIRST_TIME_def TREND_FILTER_TYPE_ACTIONS_def
      TREND_FILTER_TYPE_EVENTS_def Let_def)

text \<open>
  C2, amended. For every \<open>total_intervals = N\<close> and all query result rows, the list
  that \<open>calculate_retention\<close> returns has exactly \<open>N\<close> rows, and exactly one query was
  issued; row \<open>i\<close> has exactly \<open>N - i\<close> cells, one for each offset \<open>j\<close> from \<open>0\<close> to
  \<open>N - i - 1\<close>; the cell at offset \<open>j\<close> carries the folded query count of the pair
  \<open>(i, j)\<close> (the last row with that pair), and count \<open>0\<close> when no query row has the
  pair. The second component of a pair is thus read as the distance of the seen bucket
  from the start bucket.
\<close>

theorem calculate_retention_matrix:
  assumes "outcome_value (calculate_retention env flt tm n) = Inr parsed"
  shows "length parsed = nat n
       \<and> (\<exists>q. issued (calculate_retention env flt tm n) = [q]
            \<and> (\<forall>i < nat n.
                  length (row_values (parsed ! i)) = nat (n - int i)
                  \<and> (\<forall>j < nat (n - int i).
                        row_values (parsed ! i) ! j
                          = cell_of (last_count (sync_execute env q) (int i, int j))
                        \<and> ((\<forall>c. (int i, int j, c) \<notin> set (sync_execute env q))
                             \<longrightarrow> cell_count (row_values (parsed ! i) ! j) = 0))))"
proof -
  from calculate_retention_returns[OF assms] obtain q date_from where
    q: "issued (calculate_retention env flt tm n) = [q]"
    and pr: "parse_result env (sync_execute env q) (resolved_period flt) date_from n = Inr parsed"
    by blast
  have cells: "length (row_values (parsed ! i)) = nat (n - int i)
      \<and> (\<forall>j < nat (n - int i).
            row_values (parsed ! i) ! j = cell_of (last_count (sync_execute env q) (int i, int j))
            \<and> ((\<forall>c. (int i, int j, c) \<notin> set (sync_execute env q))
                 \<longrightarrow> cell_count (row_values (parsed ! i) ! j) = 0))"
    if i: "i < nat n" for i
  proof -
    have rv: "row_values (parsed ! i)
        = map (\<lambda>day. cell_of (last_count (sync_execute env q) (int i, day))) (py_range (n - int i))"
      using parse_result_shape(2)[OF pr i] .
    show ?thesis
    proof (intro conjI allI impI)
      show "length (row_values (parsed ! i)) = nat (n - int i)"
        by (simp add: rv py_range_length)
    next
      fix j assume j: "j < nat (n - int i)"
      then show "row_values (parsed ! i) ! j = cell_of (last_count (sync_execute env q) (int i, int j))"
        by (simp add: rv py_range_length py_range_nth)
    next
      fix j assume j: "j < nat (n - int i)"
        and "\<forall>c. (int i, int j, c) \<notin> set (sync_execute env q)"
      then have "last_count (sync_execute env q) (int i, int j) = None"
        by (simp add: last_count_None)
      with j show "cell_count (row_values (parsed ! i) ! j) = 0"
        by (simp add: rv py_range_length py_range_nth cell_of_def)
    qed
  qed
  from parse_result_shape(1)[OF pr] q cells show ?thesis by blast
qed

theorem calculate_retention_matrix_witness:
  "outcome_value (calculate_retention (example_env [(1, 1, 5), (1, 0, 3)])
        (example_filter ''Day'' ''retention_recurring'') \<lparr>pk = 1\<rparr> 2)
     = Inr [\<lparr>row_values = [\<lparr>cell_count = 0, people = []\<rparr>, \<lparr>cell_count = 0, people = []\<rparr>],
             row_label = ''Day 0'',
             row_date = \<lparr>ordinal = 737857, hour = 0, minute = 0, second = 0, microsecond = 0\<rparr>\<rparr>,
            \<lparr>row_values = [\<lparr>cell_count = 3, people = []\<rparr>], row_label = ''Day 1'',
             row_date = \<lparr>ordinal = 737858, hour = 0, minute = 0, second = 0, microsecond = 0\<rparr>\<rparr>]
   \<and> length [\<lparr>row_values = [\<lparr>cell_count = 0, people = []\<rparr>, \<lparr>cell_count = 0, people = []\<rparr>],
             row_label = ''Day 0'',
             row_date = \<lparr>ordinal = 737857, hour = 0, minute = 0, second = 0, microsecond = 0\<rparr>\<rparr>,
            \<lparr>row_values = [\<lparr>cell_count = 3, people = []\<rparr>], row_label = ''Day 1'',
             row_date = \<lparr>ordinal = 737858, hour = 0, minute = 0, second = 0, microsecond = 0\<rparr>\<rparr>]
       = nat 2"
proof -
  let ?rows = "[(1, 1, 5), (1, 0, 3)] :: (int \<times> int \<times> int) list"
  let ?env = "example_env ?rows"
  let ?flt = "example_filter ''Day'' ''retention_recurring''"
  let ?to = "\<lparr>ordinal = 737859, hour = 0, minute = 0, second = 0, microsecond = 0\<rparr>"
  let ?from = "\<lparr>ordinal = 737857, hour = 0, minute = 0, second = 0, microsecond = 0\<rparr>"
  let ?flt2 = "?flt\<lparr>stored_date_from := Some ?from, stored_date_to := Some ?to\<rparr>"
  have p: "resolved_period ?flt = ''Day''"
    by (simp add: resolved_period_def example_filter_def)
  have dt: "determineTimedelta n ''Day'' = Inr (timedelta_days n, PERIOD_TRUNC_DAY, timedelta_days 1)" for n
    by (simp add: determineTimedelta_def)
  have minus: "dt_minus ?env ?to (timedelta_days 2) = ?from"
    by (simp add: timedelta_days_def to_microseconds_def of_microseconds_def us_per_day_def)
  have clock: "now ?env k = example_now" and nodate: "date_to_of ?env f = None" for k f
    by (simp_all add: example_env_def)
  have rr: "resolve_range ?env ?flt ''Day'' (timedelta_days 2) (timedelta_days 1) = (?flt2, ?from, ?to)"
    unfolding resolve_range_def Let_def nodate clock
    by (simp add: minus example_now_def replace_midnight_def)
  have ef: "get_event_filter ?env ?flt2 PERIOD_TRUNC_DAY
      = Inr (''AND e.event = %(_event)s'', ''AND e.event = %(_event)s'', [''_event'' \<mapsto> ''$pageview''])"
    by (simp add: get_event_filter_def get_condition_def example_filter_def pageview_entity_def
        RETENTION_FIRST_TIME_def TREND_FILTER_TYPE_ACTIONS_def TREND_FILTER_TYPE_EVENTS_def)
  have ex: "sync_execute ?env q = ?rows" for q
    by (simp add: example_env_def)
  have plus: "dt_plus ?env ?from (timedelta_days 0) = ?from"
      "dt_plus ?env ?from (timedelta_days 1)
         = \<lparr>ordinal = 737858, hour = 0, minute = 0, second = 0, microsecond = 0\<rparr>"
    by (simp_all add: timedelta_days_def to_microseconds_def of_microseconds_def us_per_day_def)
  have labels: "str_int 0 = ''0''" "str_int 1 = ''1''"
    by (simp_all add: str_int_def str_nat.simps)
  have pr: "parse_result ?env ?rows ''Day'' ?from 2
     = Inr [\<lparr>row_values = [\<lparr>cell_count = 0, people = []\<rparr>, \<lparr>cell_count = 0, people = []\<rparr>],
             row_label = ''Day 0'',
             row_date = \<lparr>ordinal = 737857, hour = 0, minute = 0, second = 0, microsecond = 0\<rparr>\<rparr>,
            \<lparr>row_values = [\<lparr>cell_count = 3, people = []\<rparr>], row_label = ''Day 1'',
             row_date = \<lparr>ordinal = 737858, hour = 0, minute = 0, second = 0, microsecond = 0\<rparr>\<rparr>]"
    unfolding parse_result_def Let_def
    by (simp add: py_range_def upto.simps dt plus labels get_cell_def)
  have run: "outcome_value (calculate_retention ?env ?flt \<lparr>pk = 1\<rparr> 2)
     = Inr [\<lparr>row_values = [\<lparr>cell_count = 0, people = []\<rparr>, \<lparr>cell_count = 0, people = []\<rparr>],
             row_label = ''Day 0'',
             row_date = \<lparr>ordinal = 737857, hour = 0, minute = 0, second = 0, microsecond = 0\<rparr>\<rparr>,
            \<lparr>row_values = [\<lparr>cell_count = 3, people = []\<rparr>], row_label = ''Day 1'',
             row_date = \<lparr>ordinal = 737858, hour = 0, minute = 0, second = 0, microsecond = 0\<rparr>\<rparr>]"
    unfolding calculate_retention_def Let_def p
    by (simp add: dt rr ef ex pr)
  from calculate_retention_matrix[OF run] run show ?thesis by blast
qed

subsection \<open>C1: the returning predicate of first-time retention\<close>

text \<open>
  C1, as stated, fails: the restriction to the anchor bucket stands on the other
  disjunct. Below, for first-time retention of \<open>purchase\<close> after \<open>signup\<close>, the
  returning predicate that \<open>get_event_filter\<close> writes holds of an event that is the
  target action in a bucket other than the anchor bucket, and the predicate of the
  claim (the target action in the anchor bucket, or the returning action) does not.
\<close>

theorem claimed_returning_predicate_counterexample:
  "map_sum id (fst \<circ> snd)
     (get_event_filter (example_env []) example_first_time_filter ''toStartOfDay'')
     = Inr (''AND '' @ render (Disj (Atom ''e.event = %(_event)s'')
                                (Conj (Atom ''e.event = %(returning_event)s'')
                                   (SameBucket ''toStartOfDay''))))
   \<and> holds later_target_event
        (Disj (Atom ''e.event = %(_event)s'')
           (Conj (Atom ''e.event = %(returning_event)s'') (SameBucket ''toStartOfDay'')))
   \<and> \<not> holds later_target_event
        (Disj (Conj (Atom ''e.event = %(_event)s'') (SameBucket ''toStartOfDay''))
           (Atom ''e.event = %(returning_event)s''))"
  by (simp add: get_event_filter_def get_condition_def example_first_time_filter_def
      later_target_event_def example_env_def RETENTION_FIRST_TIME_def
      TREND_FILTER_TYPE_ACTIONS_def TREND_FILTER_TYPE_EVENTS_def Let_def)

text \<open>
  C1, amended. For every filter with \<open>retention_type = RETENTION_FIRST_TIME\<close> whose two
  entities have conditions, the returning predicate built by \<open>get_event_filter\<close> is a
  disjunction whose first disjunct is the target entity's condition, with no
  restriction of the bucket, and whose second disjunct is the returning entity's
  condition together with the restriction that the event's timestamp falls in the
  anchor bucket (the truncation of the query start instant). It is satisfied exactly by
  the events that are the target action, or that match the returning entity's condition
  in the anchor bucket.
\<close>

theorem first_time_returning_predicate:
  assumes "retention_type flt = RETENTION_FIRST_TIME"
    and "get_condition env (first_time_target flt) [] = Inr (target_condition, target_params)"
    and "get_condition env (first_time_returning flt) ''returning''
           = Inr (returning_condition, returning_params)"
  shows "get_event_filter env flt trunc =
           Inr (''AND '' @ target_condition,
                ''AND '' @ render (Disj (Atom target_condition)
                                     (Conj (Atom returning_condition) (SameBucket trunc))),
                target_params ++ returning_params)
       \<and> (holds ev (Disj (Atom target_condition)
                       (Conj (Atom returning_condition) (SameBucket trunc)))
            \<longleftrightarrow> satisfies ev target_condition
                 \<or> (satisfies ev returning_condition \<and> in_anchor_bucket ev trunc))"
proof -
  have ret: "(if \<not> length (entities flt) > 0 then pageview_entity else hd (entities flt))
      = first_time_returning flt"
    by (cases "entities flt") (simp_all add: first_time_returning_def)
  show ?thesis
    using assms unfolding get_event_filter_def ret first_time_target_def[symmetric]
    by (simp add: Let_def)
qed

theorem first_time_returning_predicate_witness:
  "get_event_filter (example_env []) example_first_time_filter ''toStartOfDay''
     = Inr (''AND e.event = %(_event)s'',
            ''AND (e.event = %(_event)s OR (e.event = %(returning_event)s AND toStartOfDay(toDateTime(%(start_date)s)) = toStartOfDay(timestamp)))'',
            [''_event'' \<mapsto> ''signup'', ''returning_event'' \<mapsto> ''purchase''])"
proof -
  have rt: "retention_type example_first_time_filter = RETENTION_FIRST_TIME"
    by (simp add: example_first_time_filter_def)
  have tc: "get_condition (example_env []) (first_time_target example_first_time_filter) []
      = Inr (''e.event = %(_event)s'', [''_event'' \<mapsto> ''signup''])"
    by (simp add: get_condition_def first_time_target_def example_first_time_filter_def
        TREND_FILTER_TYPE_ACTIONS_def TREND_FILTER_TYPE_EVENTS_def)
  have rc: "get_condition (example_env []) (first_time_returning example_first_time_filter) ''returning''
      = Inr (''e.event = %(returning_event)s'', [''returning_event'' \<mapsto> ''purchase''])"
    by (simp add: get_condition_def first_time_returning_def example_first_time_filter_def
        TREND_FILTER_TYPE_ACTIONS_def TREND_FILTER_TYPE_EVENTS_def)
  from first_time_returning_predicate[OF rt tc rc, of "''toStartOfDay''" later_target_event]
  show ?thesis by simp
qed

end
